theory Spec2Isabelle
  imports Complex_Main "HOL-Library.Log_Nat"
begin

section \<open>Cozy Bid: the sealed-bid commit-reveal auction server\<close>

text \<open>
  A shallow embedding of \<^verbatim>\<open>src/server.js\<close> and of the repository module it
  requires as \<^verbatim>\<open>./db\<close> (\<^verbatim>\<open>src/db.js\<close>; the sql.js variant of the same module
  issues the same SQL statements).

  Conventions of the model.
  \<^item> A JavaScript string is a \<^typ>\<open>string\<close>, one \<^typ>\<open>char\<close> per code unit.
  \<^item> The request fields \<^verbatim>\<open>seatToken\<close>, \<^verbatim>\<open>commit\<close>, \<^verbatim>\<open>secret\<close>, \<^verbatim>\<open>title\<close>,
    \<^verbatim>\<open>description\<close> and \<^verbatim>\<open>itemUrl\<close> are modelled for string values: each is a
    \<^typ>\<open>string option\<close>, \<open>None\<close> being a field that is missing from the request
    (\<^verbatim>\<open>undefined\<close>). The \<^verbatim>\<open>bid\<close> is any value of the request body.
  \<^item> The \<^verbatim>\<open>auctions\<close> table is the list of its rows; a nullable column is an
    \<open>option\<close>, \<open>None\<close> being SQL \<^verbatim>\<open>NULL\<close> (read back as \<^verbatim>\<open>null\<close>).
  \<^item> A route handler takes the table and the request and returns the response
    together with the table after the request.
  \<^item> The rate limiters and the start-up gate on \<^verbatim>\<open>dbReady\<close> stand in front of the
    handlers and are not part of the model.
\<close>

subsection \<open>JavaScript values and numbers\<close>

text \<open>
  A Number is \<^verbatim>\<open>NaN\<close>, an infinity, or a finite binary64 value, which is held as
  the rational it denotes (the two zeros are not told apart).
\<close>

datatype jsnum = NaN | NegInf | Fin rat | PosInf

text \<open>
  A value of the request body. \<open>JObject\<close> stands for any object or array: the
  handlers look at nothing of it but its type.
\<close>

datatype jsval = JUndefined | JNull | JBool bool | JNum jsnum | JStr string | JObject

definition isNaN :: "jsnum \<Rightarrow> bool" where
  "isNaN x = (x = NaN)"

text \<open>
  The relational operators on Numbers: every comparison with \<^verbatim>\<open>NaN\<close> is false.
\<close>

fun js_lt :: "jsnum \<Rightarrow> jsnum \<Rightarrow> bool" where
  "js_lt NaN _ = False"
| "js_lt _ NaN = False"
| "js_lt (Fin a) (Fin b) = (a < b)"
| "js_lt NegInf NegInf = False"
| "js_lt NegInf _ = True"
| "js_lt _ NegInf = False"
| "js_lt PosInf _ = False"
| "js_lt _ PosInf = True"

definition js_gt :: "jsnum \<Rightarrow> jsnum \<Rightarrow> bool" where
  "js_gt a b = js_lt b a"

definition js_le :: "jsnum \<Rightarrow> jsnum \<Rightarrow> bool" where
  "js_le a b = (a \<noteq> NaN \<and> b \<noteq> NaN \<and> \<not> js_lt b a)"

subsubsection \<open>Rounding a rational to binary64\<close>

text \<open>
  \<open>digit_count b n\<close> is the number of digits of \<open>n\<close> in base \<open>b\<close>, and
  \<open>ilog b x\<close> is the integer \<open>e\<close> with \<open>b\<^sup>e \<le> x < b\<^sup>e\<^sup>+\<^sup>1\<close>, for \<open>x > 0\<close>.
\<close>

function digit_count :: "int \<Rightarrow> int \<Rightarrow> nat" where
  "digit_count b n = (if 0 < n \<and> 1 < b then Suc (digit_count b (n div b)) else 0)"
  by pat_completeness auto
termination
  by (relation "measure (\<lambda>(b, n). nat n)") (auto simp: pos_imp_zdiv_nonneg_iff intro!: int_div_less_self)

declare digit_count.simps [simp del]

definition ilog :: "int \<Rightarrow> rat \<Rightarrow> int" where
  "ilog b x =
     (let (p, q) = quotient_of x;
          d = int (digit_count b p) - int (digit_count b q)
      in if of_int b powi d \<le> x then d else d - 1)"

text \<open>
  Round to nearest, ties to even: the value is rounded to a multiple of the unit in
  the last place of its binade (53 significant bits, the least exponent \<open>- 1022\<close>
  for the subnormal range), and overflows to an infinity from \<open>2\<^sup>1\<^sup>0\<^sup>2\<^sup>4\<close> on.
  Below the last binade (\<open>e < 1023\<close>) the rounded value is at most \<open>2\<^sup>1\<^sup>0\<^sup>2\<^sup>3\<close>, so
  the overflow test is made in the last binade only (\<open>to_double_overflow\<close> below
  shows that nothing is lost).
\<close>

definition round_half_even :: "rat \<Rightarrow> int" where
  "round_half_even y =
     (let f = \<lfloor>y\<rfloor>; r = y - of_int f
      in if r < 1 / 2 then f else if 1 / 2 < r then f + 1 else if even f then f else f + 1)"

definition to_double :: "rat \<Rightarrow> jsnum" where
  "to_double q =
     (if q = 0 then Fin 0
      else let a = \<bar>q\<bar>;
               e = max (ilog 2 a) (- 1022);
               ulp = 2 powi (e - 52);
               v = of_int (round_half_even (a / ulp)) * ulp
           in if e < 1023 then Fin (if 0 < q then v else - v)
              else if 2 ^ 1024 \<le> v then (if 0 < q then PosInf else NegInf)
              else Fin (if 0 < q then v else - v))"

subsubsection \<open>Decimal digits\<close>

definition digit_char :: "int \<Rightarrow> char" where
  "digit_char d = ''0123456789'' ! nat d"

function digits :: "int \<Rightarrow> string" where
  "digits n = (if n < 10 then [digit_char n] else digits (n div 10) @ [digit_char (n mod 10)])"
  by pat_completeness auto
termination
  by (relation "measure nat") auto

declare digits.simps [simp del]

definition is_digit :: "char \<Rightarrow> bool" where
  "is_digit c = (c \<in> set ''0123456789'')"

definition digit_val :: "char \<Rightarrow> int" where
  "digit_val c = of_char c - 48"

definition int_of_digits :: "string \<Rightarrow> int" where
  "int_of_digits ds = foldl (\<lambda>n c. 10 * n + digit_val c) 0 ds"

subsubsection \<open>Number to String\<close>

text \<open>
  \<^verbatim>\<open>String(x)\<close> for a finite \<open>x > 0\<close> (ECMAScript \<^emph>\<open>Number::toString\<close>, radix 10):
  the least number \<open>k\<close> of digits \<open>s\<close> such that \<open>s \<times> 10\<^sup>n\<^sup>-\<^sup>k\<close> rounds to \<open>x\<close>, the
  closest such \<open>s\<close> when there are two and the even one when both are as close, written
  plainly for \<open>- 6 < n \<le> 21\<close> and with an exponent otherwise. Seventeen digits identify every binary64 value; the first
  equation of \<open>shortest_digits\<close> is there for the rationals that are none.
\<close>

fun shortest_digits :: "nat \<Rightarrow> nat \<Rightarrow> rat \<Rightarrow> int \<Rightarrow> int \<times> nat" where
  "shortest_digits 0 k x n0 = (round (x * 10 powi (int k - n0)), k)"
| "shortest_digits (Suc fuel) k x n0 =
     (let y = x * 10 powi (int k - n0);
          s1 = \<lfloor>y\<rfloor>;
          s2 = s1 + 1;
          ok1 = (to_double (of_int s1 * 10 powi (n0 - int k)) = Fin x);
          ok2 = (to_double (of_int s2 * 10 powi (n0 - int k)) = Fin x)
      in if ok1 \<and> (\<not> ok2 \<or> y - of_int s1 < 1 / 2 \<or> (y - of_int s1 = 1 / 2 \<and> even s1))
         then (s1, k)
         else if ok2 then (s2, k)
         else shortest_digits fuel (k + 1) x n0)"

definition pos_to_string :: "rat \<Rightarrow> string" where
  "pos_to_string x =
     (let n0 = ilog 10 x + 1;
          (s0, k) = shortest_digits 17 1 x n0;
          (s, n) = (if s0 = 10 ^ k then (10 ^ (k - 1), n0 + 1) else (s0, n0));
          ds = digits s;
          e = n - 1;
          ex = (if 0 \<le> e then ''e+'' else ''e-'') @ digits \<bar>e\<bar>
      in if int k \<le> n \<and> n \<le> 21 then ds @ replicate (nat (n - int k)) CHR ''0''
         else if 0 < n \<and> n \<le> 21 then take (nat n) ds @ ''.'' @ drop (nat n) ds
         else if - 6 < n \<and> n \<le> 0 then ''0.'' @ replicate (nat (- n)) CHR ''0'' @ ds
         else if k = 1 then ds @ ex
         else take 1 ds @ ''.'' @ drop 1 ds @ ex)"

definition num_to_string :: "jsnum \<Rightarrow> string" where
  "num_to_string x =
     (case x of
        NaN \<Rightarrow> ''NaN''
      | PosInf \<Rightarrow> ''Infinity''
      | NegInf \<Rightarrow> ''-Infinity''
      | Fin q \<Rightarrow> if q = 0 then ''0''
                 else if q < 0 then ''-'' @ pos_to_string (- q)
                 else pos_to_string q)"

text \<open>
  \<^verbatim>\<open>x.toFixed(2)\<close>: the integer \<open>n\<close> closest to \<open>100 * |x|\<close> (the larger of two),
  written with two digits after the point; a value from \<open>10\<^sup>2\<^sup>1\<close> on, or one that is
  not finite, is written as \<^verbatim>\<open>String(x)\<close> writes it.
\<close>

definition toFixed2 :: "jsnum \<Rightarrow> string" where
  "toFixed2 x =
     (case x of
        Fin q \<Rightarrow>
          let s = (if q < 0 then ''-'' else '''');
              a = \<bar>q\<bar>
          in if 10 ^ 21 \<le> a then s @ pos_to_string a
             else let n = \<lfloor>a * 100 + 1 / 2\<rfloor>;
                      m0 = digits n;
                      m = (if length m0 \<le> 2 then replicate (3 - length m0) CHR ''0'' @ m0 else m0);
                      k = length m
                  in s @ take (k - 2) m @ ''.'' @ drop (k - 2) m
      | _ \<Rightarrow> num_to_string x)"

subsubsection \<open>parseFloat\<close>

text \<open>
  \<^verbatim>\<open>parseFloat(string)\<close>: leading white space is skipped, the longest prefix that is
  a decimal literal (sign, digits, fraction, exponent; or \<^verbatim>\<open>Infinity\<close>) is read, whatever
  follows it is ignored, and the result is \<^verbatim>\<open>NaN\<close> when there is no such prefix.
  An argument that is not a string is converted with \<^verbatim>\<open>String\<close> first.
\<close>

definition js_whitespace :: "char \<Rightarrow> bool" where
  "js_whitespace c = (c \<in> set [CHR 0x09, CHR 0x0A, CHR 0x0B, CHR 0x0C, CHR 0x0D, CHR 0x20, CHR 0xA0])"

definition exponent_part :: "string \<Rightarrow> int" where
  "exponent_part r =
     (case r of
        [] \<Rightarrow> 0
      | c # r1 \<Rightarrow>
          if c = CHR ''e'' \<or> c = CHR ''E'' then
            (let (neg, r2) = (case r1 of
                                [] \<Rightarrow> (False, [])
                              | d # r3 \<Rightarrow> if d = CHR ''-'' then (True, r3)
                                          else if d = CHR ''+'' then (False, r3)
                                          else (False, r1));
                 ds = takeWhile is_digit r2
             in if ds = [] then 0
                else if neg then - int_of_digits ds else int_of_digits ds)
          else 0)"

definition parseFloat_string :: "string \<Rightarrow> jsnum" where
  "parseFloat_string inputString =
     (let trimmed = dropWhile js_whitespace inputString;
          (neg, u) = (case trimmed of
                        [] \<Rightarrow> (False, [])
                      | c # r \<Rightarrow> if c = CHR ''-'' then (True, r)
                                  else if c = CHR ''+'' then (False, r)
                                  else (False, trimmed))
      in if take 8 u = ''Infinity'' then (if neg then NegInf else PosInf)
         else
           let ip = takeWhile is_digit u;
               r1 = dropWhile is_digit u;
               (fp, r2) = (case r1 of
                             [] \<Rightarrow> ([], [])
                           | c # r \<Rightarrow> if c = CHR ''.''
                                       then (takeWhile is_digit r, dropWhile is_digit r)
                                       else ([], r1))
           in if ip = [] \<and> fp = [] then NaN
              else
                let m = of_int (int_of_digits (ip @ fp)) * 10 powi (exponent_part r2 - int (length fp))
                in to_double (if neg then - m else m))"

definition typeof :: "jsval \<Rightarrow> string" where
  "typeof v =
     (case v of
        JUndefined \<Rightarrow> ''undefined''
      | JNull \<Rightarrow> ''object''
      | JBool _ \<Rightarrow> ''boolean''
      | JNum _ \<Rightarrow> ''number''
      | JStr _ \<Rightarrow> ''string''
      | JObject \<Rightarrow> ''object'')"

definition js_String :: "jsval \<Rightarrow> string" where
  "js_String v =
     (case v of
        JUndefined \<Rightarrow> ''undefined''
      | JNull \<Rightarrow> ''null''
      | JBool b \<Rightarrow> (if b then ''true'' else ''false'')
      | JNum x \<Rightarrow> num_to_string x
      | JStr s \<Rightarrow> s
      | JObject \<Rightarrow> ''[object Object]'')"

definition parseFloat :: "jsval \<Rightarrow> jsnum" where
  "parseFloat v = parseFloat_string (js_String v)"

subsection \<open>The bid validator (src/server.js)\<close>

text \<open>
  \<^verbatim>\<open>s.split('.')\<close>
\<close>

fun split_dot :: "string \<Rightarrow> string list" where
  "split_dot [] = [[]]"
| "split_dot (c # cs) =
     (if c = CHR ''.'' then [] # split_dot cs
      else (case split_dot cs of p # ps \<Rightarrow> (c # p) # ps | [] \<Rightarrow> [[c]]))"

text \<open>
  \<^verbatim>\<open>validateBid(bid)\<close>
\<close>

definition validateBid :: "jsval \<Rightarrow> bool" where
  "validateBid bid =
     (if typeof bid \<noteq> ''number'' \<and> typeof bid \<noteq> ''string'' then False
      else let num = parseFloat bid
           in if isNaN num \<or> js_le num (Fin 0) \<or> js_gt num (Fin 100000) then False
              else let parts = split_dot (js_String bid)
                   in if length parts > 1 \<and> length (parts ! 1) > 2 then False
                      else True)"

subsection \<open>Truthiness\<close>

text \<open>
  \<^verbatim>\<open>!x\<close> on a string-valued field or column: \<^verbatim>\<open>undefined\<close>, \<^verbatim>\<open>null\<close> and the
  empty string are falsy.
\<close>

definition truthy :: "string option \<Rightarrow> bool" where
  "truthy x = (case x of None \<Rightarrow> False | Some s \<Rightarrow> s \<noteq> [])"

subsection \<open>The auctions table (src/db.js)\<close>

datatype seat = SeatA | SeatB

record auction =
  auction_id :: string
  title :: string
  description :: "string option"
  item_url :: "string option"
  seat_a_token :: string
  seat_b_token :: string
  commit_a :: "string option"
  commit_b :: "string option"
  bid_a :: "jsnum option"
  bid_b :: "jsnum option"
  secret_a :: "string option"
  secret_b :: "string option"
  created_at :: int

type_synonym table = "auction list"

text \<open>The label the source carries in \<^verbatim>\<open>seat\<close>: \<^verbatim>\<open>'A'\<close> or \<^verbatim>\<open>'B'\<close>.\<close>

definition seat_label :: "seat \<Rightarrow> string" where
  "seat_label s = (if s = SeatA then ''A'' else ''B'')"

text \<open>
  \<^verbatim>\<open>createAuction(title, description, itemUrl)\<close>. The three random draws
  (\<^verbatim>\<open>generateAuctionId()\<close>, \<^verbatim>\<open>generateToken()\<close> twice) and the clock behind the
  default of \<^verbatim>\<open>created_at\<close> are arguments. The \<^verbatim>\<open>INSERT\<close> throws, and the result is
  \<open>None\<close>, when it breaks the primary key on \<^verbatim>\<open>id\<close> or the \<^verbatim>\<open>UNIQUE\<close> constraint of
  a token column.
\<close>

definition createAuction ::
  "table \<Rightarrow> string \<times> string \<times> string \<Rightarrow> int \<Rightarrow> string \<Rightarrow> string option \<Rightarrow> string option
     \<Rightarrow> (table \<times> string \<times> string \<times> string) option" where
  "createAuction db draws now title' description' itemUrl =
     (let (id', seatAToken, seatBToken) = draws
      in if id' \<in> set (map auction_id db)
            \<or> seatAToken \<in> set (map seat_a_token db)
            \<or> seatBToken \<in> set (map seat_b_token db)
         then None
         else Some (db @ [\<lparr> auction_id = id',
                             title = title',
                             description = (if truthy description' then description' else None),
                             item_url = (if truthy itemUrl then itemUrl else None),
                             seat_a_token = seatAToken,
                             seat_b_token = seatBToken,
                             commit_a = None, commit_b = None,
                             bid_a = None, bid_b = None,
                             secret_a = None, secret_b = None,
                             created_at = now \<rparr>],
                    id', seatAToken, seatBToken))"

text \<open>
  \<^verbatim>\<open>SELECT * FROM auctions WHERE id = ? AND (seat_a_token = ? OR seat_b_token = ?)\<close>,
  then \<^verbatim>\<open>seat = auction.seat_a_token === seatToken ? 'A' : 'B'\<close>.
\<close>

definition getAuctionBySeatToken :: "table \<Rightarrow> string \<Rightarrow> string \<Rightarrow> (auction \<times> seat) option" where
  "getAuctionBySeatToken db auctionId seatToken =
     (case find (\<lambda>r. auction_id r = auctionId \<and>
                        (seat_a_token r = seatToken \<or> seat_b_token r = seatToken)) db of
        None \<Rightarrow> None
      | Some row \<Rightarrow> Some (row, if seat_a_token row = seatToken then SeatA else SeatB))"

text \<open>\<^verbatim>\<open>SELECT * FROM auctions WHERE id = ?\<close>\<close>

definition getAuctionById :: "table \<Rightarrow> string \<Rightarrow> auction option" where
  "getAuctionById db auctionId = find (\<lambda>r. auction_id r = auctionId) db"

text \<open>\<^verbatim>\<open>UPDATE auctions SET commit_x = ? WHERE id = ?\<close>\<close>

definition setCommit :: "table \<Rightarrow> string \<Rightarrow> seat \<Rightarrow> string \<Rightarrow> table" where
  "setCommit db auctionId s commit =
     map (\<lambda>r. if auction_id r = auctionId
              then (if s = SeatA then r\<lparr>commit_a := Some commit\<rparr>
                    else r\<lparr>commit_b := Some commit\<rparr>)
              else r) db"

text \<open>
  \<^verbatim>\<open>UPDATE auctions SET bid_x = ?, secret_x = ? WHERE id = ?\<close>. SQLite has no NaN:
  a NaN bound to the \<^verbatim>\<open>REAL\<close> column is stored as \<^verbatim>\<open>NULL\<close>.
\<close>

definition setReveal :: "table \<Rightarrow> string \<Rightarrow> seat \<Rightarrow> jsnum \<Rightarrow> string \<Rightarrow> table" where
  "setReveal db auctionId s bid secret =
     (let stored = (if isNaN bid then None else Some bid)
      in map (\<lambda>r. if auction_id r = auctionId
                 then (if s = SeatA then r\<lparr>bid_a := stored, secret_a := Some secret\<rparr>
                       else r\<lparr>bid_b := stored, secret_b := Some secret\<rparr>)
                 else r) db)"

text \<open>\<^verbatim>\<open>UPDATE auctions SET commit_x = NULL WHERE id = ?\<close>\<close>

definition resetCommit :: "table \<Rightarrow> string \<Rightarrow> seat \<Rightarrow> table" where
  "resetCommit db auctionId s =
     map (\<lambda>r. if auction_id r = auctionId
              then (if s = SeatA then r\<lparr>commit_a := None\<rparr> else r\<lparr>commit_b := None\<rparr>)
              else r) db"

subsection \<open>Responses\<close>

record status_response =
  phase :: string
  hasCommitA :: bool
  hasCommitB :: bool
  hasRevealA :: bool
  hasRevealB :: bool
  status_title :: string
  status_description :: "string option"
  status_itemUrl :: "string option"
  mySeat :: "string option"
  status_revealed :: "bool option"

record result_response =
  result_title :: string
  result_description :: "string option"
  result_itemUrl :: "string option"
  bidA :: string
  bidB :: string
  winner :: string
  paymentAmount :: "string option"

text \<open>
  \<open>Error code msg\<close> is \<^verbatim>\<open>res.status(code).json({ error: msg })\<close>, \<open>OkTrue\<close> is
  \<^verbatim>\<open>{ ok: true }\<close>, \<open>NotRevealed\<close> is \<^verbatim>\<open>{ revealed: false }\<close>, and \<open>Created\<close> carries
  the auction id and the two seat links.
\<close>

datatype response =
    Error nat string
  | OkTrue
  | Created string string string
  | Status status_response
  | Result result_response
  | NotRevealed

text \<open>The error kinds of the protocol, each the response the server sends for it.\<close>

definition NotFound :: response where
  "NotFound = Error 404 ''Auction not found or invalid token''"

definition AuctionNotFound :: response where
  "AuctionNotFound = Error 404 ''Auction not found''"

definition InvalidCommitFormat :: response where
  "InvalidCommitFormat = Error 400 ''Invalid commit format''"

definition AlreadyCommitted :: response where
  "AlreadyCommitted = Error 400 ''Commit already submitted''"

definition Conflict :: response where
  "Conflict = Error 400 ''Cannot reset: other party has already committed''"

definition PreconditionFailed :: response where
  "PreconditionFailed = Error 400 ''Both parties must commit before reveal''"

definition AlreadyRevealed :: response where
  "AlreadyRevealed = Error 400 ''Already revealed''"

definition HashMismatch :: response where
  "HashMismatch = Error 400 ''Hash mismatch: bid or secret does not match commit''"

text \<open>\<open>ValidationError\<close>: a 400 sent by one of the input checks.\<close>

definition ValidationError :: "response \<Rightarrow> bool" where
  "ValidationError r =
     (r \<in> set [Error 400 ''Title is required'',
                Error 400 ''Title too long (max 200 chars)'',
                Error 400 ''seatToken and commit are required'',
                Error 400 ''Invalid commit format'',
                Error 400 ''seatToken is required'',
                Error 400 ''seatToken, bid, and secret are required'',
                Error 400 ''Invalid bid: must be > 0, <= 100000, max 2 decimals''])"

subsection \<open>The handlers (src/server.js)\<close>

text \<open>\<^verbatim>\<open>computeHash(payload)\<close>; the digest function of the runtime,
  \<^verbatim>\<open>crypto.createHash('sha256').update(payload).digest('hex')\<close>, is the parameter
  \<open>sha256\<close>.\<close>

definition computeHash :: "(string \<Rightarrow> string) \<Rightarrow> string \<Rightarrow> string" where
  "computeHash sha256 payload = sha256 payload"

text \<open>\<^verbatim>\<open>s.trim()\<close>\<close>

definition js_trim :: "string \<Rightarrow> string" where
  "js_trim s = rev (dropWhile js_whitespace (rev (dropWhile js_whitespace s)))"

text \<open>\<^verbatim>\<open>POST /api/auction\<close>; \<open>baseUrl\<close> is the protocol and host of the request.\<close>

definition post_auction ::
  "table \<Rightarrow> string \<Rightarrow> string \<times> string \<times> string \<Rightarrow> int
     \<Rightarrow> string option \<Rightarrow> string option \<Rightarrow> string option \<Rightarrow> response \<times> table" where
  "post_auction db baseUrl draws now title' description' itemUrl =
     (if \<not> truthy title' \<or> length (js_trim (the title')) = 0
      then (Error 400 ''Title is required'', db)
      else if length (the title') > 200
      then (Error 400 ''Title too long (max 200 chars)'', db)
      else case createAuction db draws now (js_trim (the title'))
                  (map_option js_trim description') (map_option js_trim itemUrl) of
        None \<Rightarrow> (Error 500 ''Failed to create auction'', db)
      | Some (db', id', seatAToken, seatBToken) \<Rightarrow>
          (Created id' (baseUrl @ ''/a/'' @ id' @ ''/'' @ seatAToken)
                       (baseUrl @ ''/a/'' @ id' @ ''/'' @ seatBToken), db'))"

text \<open>\<^verbatim>\<open>GET /api/auction/:auctionId/status\<close>\<close>

definition get_status :: "table \<Rightarrow> string \<Rightarrow> string option \<Rightarrow> response" where
  "get_status db auctionId seatToken =
     (case getAuctionById db auctionId of
        None \<Rightarrow> Error 404 ''Auction not found''
      | Some auction \<Rightarrow>
          let hasCommitA = truthy (commit_a auction);
              hasCommitB = truthy (commit_b auction);
              hasRevealA = (bid_a auction \<noteq> None);
              hasRevealB = (bid_b auction \<noteq> None);
              phase = (if hasRevealA \<and> hasRevealB then ''revealed''
                       else if hasCommitA \<and> hasCommitB then ''reveal''
                       else ''commit'')
          in Status \<lparr>
               phase = phase,
               hasCommitA = hasCommitA,
               hasCommitB = hasCommitB,
               hasRevealA = hasRevealA,
               hasRevealB = hasRevealB,
               status_title = title auction,
               status_description = description auction,
               status_itemUrl = item_url auction,
               mySeat = (if truthy seatToken
                         then (if Some (seat_a_token auction) = seatToken then Some ''A''
                               else if Some (seat_b_token auction) = seatToken then Some ''B''
                               else None)
                         else None),
               status_revealed = (if hasRevealA \<and> hasRevealB then Some True else None) \<rparr>)"

text \<open>\<^verbatim>\<open>/^[a-f0-9]{64}$/.test(commit)\<close>\<close>

definition hex_lower :: "char \<Rightarrow> bool" where
  "hex_lower c = (c \<in> set ''abcdef0123456789'')"

definition commit_format :: "string \<Rightarrow> bool" where
  "commit_format commit = (length commit = 64 \<and> list_all hex_lower commit)"

text \<open>\<^verbatim>\<open>POST /api/auction/:auctionId/commit\<close>\<close>

definition post_commit ::
  "table \<Rightarrow> string \<Rightarrow> string option \<Rightarrow> string option \<Rightarrow> response \<times> table" where
  "post_commit db auctionId seatToken commit =
     (if \<not> truthy seatToken \<or> \<not> truthy commit
      then (Error 400 ''seatToken and commit are required'', db)
      else if \<not> commit_format (the commit)
      then (Error 400 ''Invalid commit format'', db)
      else case getAuctionBySeatToken db auctionId (the seatToken) of
        None \<Rightarrow> (Error 404 ''Auction not found or invalid token'', db)
      | Some (auction, s) \<Rightarrow>
          let existingCommit = (if s = SeatA then commit_a auction else commit_b auction)
          in if truthy existingCommit
             then (Error 400 ''Commit already submitted'', db)
             else (OkTrue, setCommit db auctionId s (the commit)))"

text \<open>\<^verbatim>\<open>POST /api/auction/:auctionId/reset-commit\<close>\<close>

definition post_reset_commit ::
  "table \<Rightarrow> string \<Rightarrow> string option \<Rightarrow> response \<times> table" where
  "post_reset_commit db auctionId seatToken =
     (if \<not> truthy seatToken
      then (Error 400 ''seatToken is required'', db)
      else case getAuctionBySeatToken db auctionId (the seatToken) of
        None \<Rightarrow> (Error 404 ''Auction not found or invalid token'', db)
      | Some (auction, s) \<Rightarrow>
          let otherCommit = (if s = SeatA then commit_b auction else commit_a auction)
          in if truthy otherCommit
             then (Error 400 ''Cannot reset: other party has already committed'', db)
             else (OkTrue, resetCommit db auctionId s))"

text \<open>\<^verbatim>\<open>POST /api/auction/:auctionId/reveal\<close>\<close>

definition post_reveal ::
  "(string \<Rightarrow> string) \<Rightarrow> table \<Rightarrow> string \<Rightarrow> string option \<Rightarrow> jsval \<Rightarrow> string option
     \<Rightarrow> response \<times> table" where
  "post_reveal sha256 db auctionId seatToken bid secret =
     (if \<not> truthy seatToken \<or> bid = JUndefined \<or> \<not> truthy secret
      then (Error 400 ''seatToken, bid, and secret are required'', db)
      else if \<not> validateBid bid
      then (Error 400 ''Invalid bid: must be > 0, <= 100000, max 2 decimals'', db)
      else case getAuctionBySeatToken db auctionId (the seatToken) of
        None \<Rightarrow> (Error 404 ''Auction not found or invalid token'', db)
      | Some (auction, s) \<Rightarrow>
          if \<not> truthy (commit_a auction) \<or> \<not> truthy (commit_b auction)
          then (Error 400 ''Both parties must commit before reveal'', db)
          else
            let existingBid = (if s = SeatA then bid_a auction else bid_b auction)
            in if existingBid \<noteq> None
               then (Error 400 ''Already revealed'', db)
               else
                 let bidStr = toFixed2 (parseFloat bid);
                     payload = bidStr @ ''|'' @ the secret @ ''|'' @ auctionId @ ''|'' @ seat_label s;
                     computedHash = computeHash sha256 payload;
                     storedCommit = (if s = SeatA then commit_a auction else commit_b auction)
                 in if Some computedHash \<noteq> storedCommit
                    then (Error 400 ''Hash mismatch: bid or secret does not match commit'', db)
                    else (OkTrue,
                          setReveal db auctionId s (parseFloat (JStr bidStr)) (the secret)))"

text \<open>
  \<^verbatim>\<open>GET /api/auction/:auctionId/result\<close>. The source also computes \<^verbatim>\<open>loser\<close> and
  \<^verbatim>\<open>loserBid\<close>, which the response does not use.
\<close>

definition get_result :: "table \<Rightarrow> string \<Rightarrow> response" where
  "get_result db auctionId =
     (case getAuctionById db auctionId of
        None \<Rightarrow> Error 404 ''Auction not found''
      | Some auction \<Rightarrow>
          if bid_a auction = None \<or> bid_b auction = None then NotRevealed
          else
            let bidA = the (bid_a auction);
                bidB = the (bid_b auction);
                (winner, winnerBid) =
                  (if js_gt bidA bidB then (''A'', bidA)
                   else if js_gt bidB bidA then (''B'', bidB)
                   else (''TIE'', bidA))
            in Result \<lparr>
                 result_title = title auction,
                 result_description = description auction,
                 result_itemUrl = item_url auction,
                 bidA = toFixed2 bidA,
                 bidB = toFixed2 bidB,
                 winner = winner,
                 paymentAmount = (if winner \<noteq> ''TIE'' then Some (toFixed2 winnerBid) else None) \<rparr>)"

subsection \<open>The server as a state machine\<close>

text \<open>The six operations of the protocol, one request each.\<close>

datatype request =
    Create string "string \<times> string \<times> string" int "string option" "string option" "string option"
  | Commit string "string option" "string option"
  | ResetCommit string "string option"
  | Reveal string "string option" jsval "string option"
  | GetStatus string "string option"
  | GetResult string

fun handle :: "(string \<Rightarrow> string) \<Rightarrow> table \<Rightarrow> request \<Rightarrow> response \<times> table" where
  "handle sha256 db (Create baseUrl draws now t d u) = post_auction db baseUrl draws now t d u"
| "handle sha256 db (Commit auctionId seatToken commit) = post_commit db auctionId seatToken commit"
| "handle sha256 db (ResetCommit auctionId seatToken) = post_reset_commit db auctionId seatToken"
| "handle sha256 db (Reveal auctionId seatToken bid secret) =
     post_reveal sha256 db auctionId seatToken bid secret"
| "handle sha256 db (GetStatus auctionId seatToken) = (get_status db auctionId seatToken, db)"
| "handle sha256 db (GetResult auctionId) = (get_result db auctionId, db)"

text \<open>The table after a sequence of requests; the server starts from the empty
  table.\<close>

fun run :: "(string \<Rightarrow> string) \<Rightarrow> table \<Rightarrow> request list \<Rightarrow> table" where
  "run sha256 db [] = db"
| "run sha256 db (r # rs) = run sha256 (snd (handle sha256 db r)) rs"

subsection \<open>Names used to state the properties\<close>

text \<open>
  The fields of a seat, a row with the fields of a seat set, the update of the rows
  of one auction, the payload of the commitment of a seat, and the two-decimal form
  of a bid string.
\<close>

definition other_seat :: "seat \<Rightarrow> seat" where
  "other_seat s = (if s = SeatA then SeatB else SeatA)"

definition commit_of :: "seat \<Rightarrow> auction \<Rightarrow> string option" where
  "commit_of s r = (if s = SeatA then commit_a r else commit_b r)"

definition bid_of :: "seat \<Rightarrow> auction \<Rightarrow> jsnum option" where
  "bid_of s r = (if s = SeatA then bid_a r else bid_b r)"

definition with_commit :: "seat \<Rightarrow> string option \<Rightarrow> auction \<Rightarrow> auction" where
  "with_commit s c r = (if s = SeatA then r\<lparr>commit_a := c\<rparr> else r\<lparr>commit_b := c\<rparr>)"

definition with_reveal :: "seat \<Rightarrow> jsnum \<Rightarrow> string \<Rightarrow> auction \<Rightarrow> auction" where
  "with_reveal s b x r =
     (if s = SeatA then r\<lparr>bid_a := Some b, secret_a := Some x\<rparr>
      else r\<lparr>bid_b := Some b, secret_b := Some x\<rparr>)"

definition update_rows :: "string \<Rightarrow> (auction \<Rightarrow> auction) \<Rightarrow> table \<Rightarrow> table" where
  "update_rows i f db = map (\<lambda>r. if auction_id r = i then f r else r) db"

definition commit_payload :: "jsval \<Rightarrow> string \<Rightarrow> string \<Rightarrow> seat \<Rightarrow> string" where
  "commit_payload bid secret auctionId s =
     toFixed2 (parseFloat bid) @ ''|'' @ secret @ ''|'' @ auctionId @ ''|'' @ seat_label s"

definition two_decimal_form :: "string \<Rightarrow> bool" where
  "two_decimal_form str =
     (let n = length str
      in 4 \<le> n \<and> str ! (n - 3) = CHR ''.''
         \<and> list_all is_digit (take (n - 3) str) \<and> list_all is_digit (drop (n - 2) str))"

text \<open>An amount of hundredths written with two decimals, as \<open>toFixed2\<close> writes it.\<close>

definition fixed2 :: "int \<Rightarrow> string" where
  "fixed2 n =
     (let m0 = digits n;
          m = (if length m0 \<le> 2 then replicate (3 - length m0) CHR ''0'' @ m0 else m0);
          k = length m
      in take (k - 2) m @ ''.'' @ drop (k - 2) m)"

subsection \<open>The invariant of the table\<close>

text \<open>
  The invariant of the table: the primary key holds, and a row with a bid has both
  commits. \<open>table_step\<close> lists the ways in which one request changes the table.
\<close>

definition reveal_needs_commits :: "auction \<Rightarrow> bool" where
  "reveal_needs_commits r =
     (bid_a r \<noteq> None \<or> bid_b r \<noteq> None \<longrightarrow> truthy (commit_a r) \<and> truthy (commit_b r))"

definition table_inv :: "table \<Rightarrow> bool" where
  "table_inv db = (distinct (map auction_id db) \<and> list_all reveal_needs_commits db)"

inductive table_step :: "table \<Rightarrow> table \<Rightarrow> bool" where
  unchanged: "table_step db db"
| committed: "getAuctionBySeatToken db i t = Some (a, s) \<Longrightarrow> \<not> truthy (commit_of s a) \<Longrightarrow> c \<noteq> []
     \<Longrightarrow> table_step db (update_rows i (with_commit s (Some c)) db)"
| cleared: "getAuctionBySeatToken db i t = Some (a, s) \<Longrightarrow> \<not> truthy (commit_of (other_seat s) a)
     \<Longrightarrow> table_step db (update_rows i (with_commit s None) db)"
| revealed: "getAuctionBySeatToken db i t = Some (a, s) \<Longrightarrow> truthy (commit_a a) \<Longrightarrow> truthy (commit_b a)
     \<Longrightarrow> bid_of s a = None \<Longrightarrow> table_step db (update_rows i (with_reveal s v x) db)"
| created: "auction_id row \<notin> set (map auction_id db) \<Longrightarrow> bid_a row = None \<Longrightarrow> bid_b row = None
     \<Longrightarrow> table_step db (db @ [row])"

subsection \<open>An example auction\<close>

text \<open>
  The end-to-end scenario: seat A commits to \<^verbatim>\<open>150.00|peanut|a1|A\<close>, seat B to
  \<^verbatim>\<open>200.00|walnut|a1|B\<close>, then both reveal. \<open>example_sha\<close> stands in for the digest
  function: it sends the two payloads to two digests and every other string to a
  third one.
\<close>

definition example_sha :: "string \<Rightarrow> string" where
  "example_sha payload = (if payload = ''150.00|peanut|a1|A'' then replicate 64 CHR ''a''
                          else if payload = ''200.00|walnut|a1|B'' then replicate 64 CHR ''c''
                          else replicate 64 CHR ''b'')"

definition example_auction :: auction where
  "example_auction = \<lparr> auction_id = ''a1'', title = ''Sofa'', description = None, item_url = None,
     seat_a_token = ''ta'', seat_b_token = ''tb'', commit_a = None, commit_b = None,
     bid_a = None, bid_b = None, secret_a = None, secret_b = None, created_at = 0 \<rparr>"

definition committed_auction :: auction where
  "committed_auction = example_auction\<lparr>commit_a := Some (replicate 64 CHR ''a''),
                                        commit_b := Some (replicate 64 CHR ''c'')\<rparr>"

definition half_revealed_auction :: auction where
  "half_revealed_auction = committed_auction\<lparr>bid_a := Some (Fin 150), secret_a := Some ''peanut''\<rparr>"

definition revealed_auction :: auction where
  "revealed_auction = committed_auction\<lparr>bid_a := Some (Fin 150), bid_b := Some (Fin 200),
      secret_a := Some ''peanut'', secret_b := Some ''walnut''\<rparr>"

definition example_session :: "request list" where
  "example_session =
     [Create ''http://host'' (''a1'', ''ta'', ''tb'') 0 (Some ''Sofa'') None None,
      Commit ''a1'' (Some ''ta'') (Some (replicate 64 CHR ''a'')),
      Commit ''a1'' (Some ''tb'') (Some (replicate 64 CHR ''c'')),
      Reveal ''a1'' (Some ''ta'') (JStr ''150.00'') (Some ''peanut'')]"

definition example_attempts :: "request list" where
  "example_attempts =
     [ResetCommit ''a1'' (Some ''ta''),
      Commit ''a1'' (Some ''ta'') (Some (replicate 64 CHR ''d'')),
      ResetCommit ''a1'' (Some ''tb''),
      Reveal ''a1'' (Some ''ta'') (JStr ''150.00'') (Some ''peanut'')]"

definition example_last_reveal :: "request list" where
  "example_last_reveal = [Reveal ''a1'' (Some ''tb'') (JStr ''200.00'') (Some ''walnut'')]"

section \<open>Lemmas\<close>

subsection \<open>Lookups and updates\<close>

lemma find_id_of_find_token:
  assumes "distinct (map auction_id db)"
    and "find (\<lambda>r. auction_id r = i \<and> P r) db = Some a"
  shows "find (\<lambda>r. auction_id r = i) db = Some a"
  using assms
proof (induction db)
  case Nil
  then show ?case by simp
next
  case (Cons r db)
  show ?case
  proof (cases "auction_id r = i")
    case False
    with Cons show ?thesis by simp
  next
    case True
    have "P r"
    proof (rule ccontr)
      assume "\<not> P r"
      with Cons.prems(2) have "find (\<lambda>r. auction_id r = i \<and> P r) db = Some a" by simp
      then have "a \<in> set db" "auction_id a = i"
        by (auto simp: find_Some_iff)
      then have "i \<in> auction_id ` set db" by (auto simp: image_iff)
      with Cons.prems(1) True show False by simp
    qed
    with True Cons.prems(2) show ?thesis by simp
  qed
qed

lemma getAuctionById_of_token:
  assumes "distinct (map auction_id db)"
    and "getAuctionBySeatToken db i t = Some (a, s)"
  shows "getAuctionById db i = Some a"
proof -
  from assms(2) have "find (\<lambda>r. auction_id r = i \<and> (seat_a_token r = t \<or> seat_b_token r = t)) db = Some a"
    by (auto simp: getAuctionBySeatToken_def split: option.splits)
  from find_id_of_find_token [OF assms(1) this] show ?thesis
    by (simp add: getAuctionById_def)
qed

lemma find_map_update:
  assumes "\<And>r. auction_id (f r) = auction_id r"
  shows "find (\<lambda>r. auction_id r = i) (map (\<lambda>r. if auction_id r = i then f r else r) db)
         = map_option f (find (\<lambda>r. auction_id r = i) db)"
  using assms by (induction db) auto

lemma find_map_other:
  assumes "\<And>r. auction_id (f r) = auction_id r" and "j \<noteq> i"
  shows "find (\<lambda>r. auction_id r = j) (map (\<lambda>r. if auction_id r = i then f r else r) db)
         = find (\<lambda>r. auction_id r = j) db"
  using assms by (induction db) auto

lemma find_append_found: "find P xs = Some x \<Longrightarrow> find P (xs @ ys) = Some x"
  by (induction xs) (auto split: if_splits)

lemma getAuctionById_mem: "getAuctionById db j = Some r \<Longrightarrow> r \<in> set db"
  by (auto simp: getAuctionById_def find_Some_iff)

lemma update_rows_ids: "(\<And>r. auction_id (f r) = auction_id r) \<Longrightarrow>
    map auction_id (update_rows i f db) = map auction_id db"
  by (induction db) (simp_all add: update_rows_def)

lemma with_commit_id [simp]: "auction_id (with_commit s c r) = auction_id r"
  by (simp add: with_commit_def)

lemma with_reveal_id [simp]: "auction_id (with_reveal s v x r) = auction_id r"
  by (simp add: with_reveal_def)

lemma getAuctionById_update_rows:
  assumes "\<And>r. auction_id (f r) = auction_id r"
  shows "getAuctionById (update_rows i f db) j =
           (if j = i then map_option f (getAuctionById db i) else getAuctionById db j)"
  using find_map_update [of f i db, OF assms] find_map_other [of f j i db, OF assms]
  by (simp add: getAuctionById_def update_rows_def)

lemma setCommit_update: "setCommit db i s c = update_rows i (with_commit s (Some c)) db"
  by (simp add: setCommit_def update_rows_def with_commit_def)

lemma resetCommit_update: "resetCommit db i s = update_rows i (with_commit s None) db"
  by (simp add: resetCommit_def update_rows_def with_commit_def)

lemma setReveal_update:
  "\<not> isNaN v \<Longrightarrow> setReveal db i s v x = update_rows i (with_reveal s v x) db"
  by (simp add: setReveal_def Let_def update_rows_def with_reveal_def)

lemma find_map_same:
  assumes "\<And>r. P (f r) = P r"
  shows "find P (map f db) = map_option f (find P db)"
  using assms by (induction db) auto

lemma resolved_row:
  assumes "getAuctionBySeatToken db i t = Some (a, s)"
  shows "a \<in> set db" and "auction_id a = i"
proof -
  from assms have "find (\<lambda>r. auction_id r = i \<and> (seat_a_token r = t \<or> seat_b_token r = t)) db = Some a"
    by (auto simp: getAuctionBySeatToken_def split: option.splits)
  then show "a \<in> set db" and "auction_id a = i"
    by (auto simp: find_Some_iff)
qed

lemma row_of_id_unique:
  assumes "distinct (map auction_id db)" "a \<in> set db" "r \<in> set db" "auction_id r = auction_id a"
  shows "r = a"
proof -
  from assms(1) have "inj_on auction_id (set db)" by (simp add: distinct_map)
  with assms(2-4) show ?thesis by (auto dest: inj_onD)
qed

lemma commit_format_nonempty: "commit_format c \<Longrightarrow> c \<noteq> []"
  by (auto simp: commit_format_def)

lemma seat_label_inj: "seat_label s' = seat_label s \<Longrightarrow> s' = s"
  by (cases s; cases s') (simp_all add: seat_label_def)

subsection \<open>Comparisons, the bid validator and the digits of a bid\<close>

lemma js_lt_irrefl: "\<not> js_lt a a"
  by (cases a) simp_all

lemma js_gt_asym: "js_gt a b \<Longrightarrow> \<not> js_gt b a"
  by (cases a; cases b) (auto simp: js_gt_def)

lemma validateBid_defined: "validateBid bid \<Longrightarrow> bid \<noteq> JUndefined"
  by (auto simp: validateBid_def typeof_def)

lemma validateBid_range:
  assumes "validateBid bid"
  shows "\<exists>v. parseFloat bid = Fin v \<and> 0 < v \<and> v \<le> 100000"
proof -
  from assms have a: "\<not> isNaN (parseFloat bid)" "\<not> js_le (parseFloat bid) (Fin 0)"
      "\<not> js_gt (parseFloat bid) (Fin 100000)"
    by (auto simp: validateBid_def Let_def split: if_splits)
  then show ?thesis
    by (cases "parseFloat bid") (auto simp: isNaN_def js_le_def js_gt_def)
qed

lemma digit_char_is_digit: "0 \<le> d \<Longrightarrow> d < 10 \<Longrightarrow> is_digit (digit_char d)"
proof -
  assume "0 \<le> d" "d < 10"
  then have "nat d < length ''0123456789''" by simp
  then have "''0123456789'' ! nat d \<in> set ''0123456789''" by (rule nth_mem)
  then show ?thesis by (simp add: is_digit_def digit_char_def)
qed

lemma digits_all_digit: "0 \<le> n \<Longrightarrow> digits n \<noteq> [] \<and> list_all is_digit (digits n)"
proof (induction n rule: digits.induct)
  case (1 n)
  show ?case
  proof (cases "n < 10")
    case True
    with "1.prems" show ?thesis
      by (subst (1 2) digits.simps) (simp add: digit_char_is_digit)
  next
    case False
    then have "0 \<le> n div 10" by simp
    with "1.IH" False have "list_all is_digit (digits (n div 10))" by simp
    moreover have "is_digit (digit_char (n mod 10))"
      by (rule digit_char_is_digit) simp_all
    ultimately show ?thesis
      using False by (subst (1 2) digits.simps) simp
  qed
qed

lemma digit_val_digit_char: "0 \<le> d \<Longrightarrow> d < 10 \<Longrightarrow> digit_val (digit_char d) = d"
proof -
  assume "0 \<le> d" "d < 10"
  then have "d = 0 \<or> d = 1 \<or> d = 2 \<or> d = 3 \<or> d = 4 \<or> d = 5 \<or> d = 6 \<or> d = 7 \<or> d = 8 \<or> d = 9"
    by arith
  then show ?thesis
    by (elim disjE) (simp_all add: digit_val_def digit_char_def)
qed

lemma int_of_digits_snoc: "int_of_digits (ds @ [c]) = 10 * int_of_digits ds + digit_val c"
  by (simp add: int_of_digits_def)

lemma int_of_digits_digits: "0 \<le> n \<Longrightarrow> int_of_digits (digits n) = n"
proof (induction n rule: digits.induct)
  case (1 n)
  show ?case
  proof (cases "n < 10")
    case True
    with "1.prems" show ?thesis
      by (subst digits.simps) (simp add: int_of_digits_def digit_val_digit_char)
  next
    case False
    then have "0 \<le> n div 10" by simp
    with "1.IH" False have "int_of_digits (digits (n div 10)) = n div 10" by simp
    moreover have "digit_val (digit_char (n mod 10)) = n mod 10"
      by (rule digit_val_digit_char) simp_all
    ultimately show ?thesis
      using False by (subst digits.simps) (simp add: int_of_digits_snoc)
  qed
qed

lemma int_of_digits_zeros: "int_of_digits (replicate k CHR ''0'' @ ds) = int_of_digits ds"
proof -
  have "foldl (\<lambda>n c. 10 * n + digit_val c) 0 (replicate k CHR ''0'') = 0"
    by (induction k) (simp_all add: digit_val_def)
  then show ?thesis by (simp add: int_of_digits_def)
qed

lemma is_digit_chars:
  assumes "is_digit c"
  shows "\<not> js_whitespace c" "c \<noteq> CHR ''-''" "c \<noteq> CHR ''+''" "c \<noteq> CHR ''I''" "c \<noteq> CHR ''.''"
  using assms by (auto simp: is_digit_def js_whitespace_def)

lemma toFixed2_small:
  assumes "0 \<le> v" "v < 10 ^ 21"
  shows "two_decimal_form (toFixed2 (Fin v))"
proof -
  define n where "n = \<lfloor>v * 100 + 1 / 2\<rfloor>"
  define m0 where "m0 = digits n"
  define m where "m = (if length m0 \<le> 2 then replicate (3 - length m0) CHR ''0'' @ m0 else m0)"
  have n0: "0 \<le> n" using assms(1) by (simp add: n_def)
  from digits_all_digit [OF n0] have m0: "m0 \<noteq> []" "list_all is_digit m0"
    by (simp_all add: m0_def)
  have zero: "is_digit CHR ''0''" by (simp add: is_digit_def)
  have m: "list_all is_digit m" "3 \<le> length m"
    using m0 zero by (auto simp: m_def list_all_iff)
  have abs: "\<bar>v\<bar> = v" using assms(1) by simp
  have eq: "toFixed2 (Fin v) = take (length m - 2) m @ ''.'' @ drop (length m - 2) m"
    using assms by (simp add: toFixed2_def Let_def abs n_def m0_def m_def)
  have len: "length (take (length m - 2) m @ ''.'' @ drop (length m - 2) m) = length m + 1"
    using m(2) by simp
  have d1: "list_all is_digit (take (length m - 2) m)" and d2: "list_all is_digit (drop (length m - 2) m)"
    using m(1) by (auto simp: list_all_iff dest: in_set_takeD in_set_dropD)
  show ?thesis
    unfolding eq two_decimal_form_def Let_def len
    using m(2) d1 d2 by (simp add: nth_append)
qed

lemma validateBid_two_decimals:
  assumes "validateBid bid"
  shows "two_decimal_form (toFixed2 (parseFloat bid))"
proof -
  from validateBid_range [OF assms] obtain v where v: "parseFloat bid = Fin v" "0 < v" "v \<le> 100000"
    by blast
  have "v < 10 ^ 21" using v(3) by simp
  with v show ?thesis by (simp add: toFixed2_small)
qed

lemma toFixed2_fixed2:
  assumes "0 \<le> v" "v < 10 ^ 21"
  shows "toFixed2 (Fin v) = fixed2 \<lfloor>v * 100 + 1 / 2\<rfloor>"
proof -
  have abs: "\<bar>v\<bar> = v" using assms(1) by simp
  show ?thesis using assms by (simp add: toFixed2_def fixed2_def Let_def abs)
qed

lemma fixed2_parts:
  assumes "0 \<le> n"
  shows "\<exists>ip fp. fixed2 n = ip @ ''.'' @ fp \<and> ip \<noteq> [] \<and> list_all is_digit ip
           \<and> list_all is_digit fp \<and> length fp = 2 \<and> int_of_digits (ip @ fp) = n"
proof -
  define m0 where "m0 = digits n"
  define m where "m = (if length m0 \<le> 2 then replicate (3 - length m0) CHR ''0'' @ m0 else m0)"
  from digits_all_digit [OF assms] have m0: "m0 \<noteq> []" "list_all is_digit m0"
    by (simp_all add: m0_def)
  have zero: "is_digit CHR ''0''" by (simp add: is_digit_def)
  have m: "list_all is_digit m" "3 \<le> length m"
    using m0 zero by (auto simp: m_def list_all_iff)
  have val: "int_of_digits m = n"
    using int_of_digits_digits [OF assms] by (simp add: m_def m0_def int_of_digits_zeros)
  have eq: "fixed2 n = take (length m - 2) m @ ''.'' @ drop (length m - 2) m"
    by (simp add: fixed2_def Let_def m0_def m_def)
  have d1: "list_all is_digit (take (length m - 2) m)" and d2: "list_all is_digit (drop (length m - 2) m)"
    using m(1) by (auto simp: list_all_iff dest: in_set_takeD in_set_dropD)
  have ne: "take (length m - 2) m \<noteq> []" using m(2) by auto
  have len: "length (drop (length m - 2) m) = 2" using m(2) by simp
  show ?thesis
    using eq ne d1 d2 len val by (intro exI [of _ "take (length m - 2) m"]
        exI [of _ "drop (length m - 2) m"]) simp
qed

subsection \<open>Rounding to binary64\<close>

lemma digit_count_bounds:
  "0 < n \<Longrightarrow> 1 < b \<Longrightarrow> b ^ (digit_count b n - 1) \<le> n \<and> n < b ^ digit_count b n"
proof (induction b n rule: digit_count.induct)
  case (1 b n)
  let ?m = "n div b"
  let ?k = "digit_count b ?m"
  have dc: "digit_count b n = Suc ?k"
    using "1.prems" by (subst digit_count.simps) simp
  have split: "n = b * ?m + n mod b" by simp
  have r: "0 \<le> n mod b" "n mod b < b" using "1.prems" by simp_all
  have m0: "0 \<le> ?m" using "1.prems" by (simp add: pos_imp_zdiv_nonneg_iff)
  show ?case
  proof (cases "?m = 0")
    case True
    then have "?k = 0" by (subst digit_count.simps) simp
    moreover from True split r have "n < b" by simp
    ultimately show ?thesis using dc "1.prems" by simp
  next
    case False
    with m0 have mpos: "0 < ?m" by simp
    from "1.IH" "1.prems" mpos
    have ih: "b ^ (?k - 1) \<le> ?m" "?m < b ^ ?k" by simp_all
    have kpos: "0 < ?k" using mpos "1.prems" by (subst digit_count.simps) simp
    then have pk: "b ^ ?k = b * b ^ (?k - 1)"
      by (cases ?k) simp_all
    have "b * b ^ (?k - 1) \<le> b * ?m"
      using ih(1) "1.prems" by (intro mult_left_mono) simp_all
    also have "\<dots> \<le> n" using split r by linarith
    finally have lower: "b ^ ?k \<le> n" by (simp add: pk)
    from ih(2) have "?m + 1 \<le> b ^ ?k" by simp
    then have "b * (?m + 1) \<le> b * b ^ ?k"
      using "1.prems" by (intro mult_left_mono) simp_all
    moreover have "b * (?m + 1) = b * ?m + b" by (simp add: algebra_simps)
    with split r have "n < b * (?m + 1)" by linarith
    ultimately have upper: "n < b ^ Suc ?k" by simp
    from lower upper dc show ?thesis by simp
  qed
qed

lemma ilog_lower:
  assumes "0 < x" "1 < b"
  shows "of_int b powi (ilog b x) \<le> x"
proof -
  obtain p q where pq: "quotient_of x = (p, q)" by (cases "quotient_of x")
  then have q: "0 < q" by (rule quotient_of_denom_pos)
  from pq have x: "x = of_int p / of_int q" by (rule quotient_of_div)
  with assms(1) q have p: "0 < p" by (simp add: zero_less_divide_iff)
  let ?B = "of_int b :: rat"
  have B: "1 < ?B" "?B \<noteq> 0" using assms(2) by simp_all
  let ?d = "int (digit_count b p) - int (digit_count b q)"
  show ?thesis
  proof (cases "?B powi ?d \<le> x")
    case True
    then show ?thesis by (simp add: ilog_def pq)
  next
    case False
    then have il: "ilog b x = ?d - 1" by (simp add: ilog_def pq)
    from digit_count_bounds [OF p assms(2)] have lp: "b ^ (digit_count b p - 1) \<le> p" by simp
    from digit_count_bounds [OF q assms(2)] have uq: "q < b ^ digit_count b q" by simp
    have cp: "0 < digit_count b p" using p assms(2) by (subst digit_count.simps) simp
    then have d1: "?d - 1 = int (digit_count b p - 1) - int (digit_count b q)" by simp
    have "?B powi (?d - 1) = ?B ^ (digit_count b p - 1) / ?B ^ digit_count b q"
      unfolding d1 using B(2) by (simp add: power_int_diff)
    also have "\<dots> \<le> of_int p / of_int q"
    proof (rule frac_le)
      show "0 \<le> (of_int p :: rat)" using p by simp
      have "?B ^ (digit_count b p - 1) = of_int (b ^ (digit_count b p - 1))" by simp
      also have "\<dots> \<le> (of_int p :: rat)" using lp by (simp only: of_int_le_iff)
      finally show "?B ^ (digit_count b p - 1) \<le> (of_int p :: rat)" .
      show "0 < (of_int q :: rat)" using q by simp
      have "(of_int q :: rat) \<le> of_int (b ^ digit_count b q)"
        using uq by (simp only: of_int_le_iff)
      then show "(of_int q :: rat) \<le> ?B ^ digit_count b q" by simp
    qed
    finally have "?B powi (?d - 1) \<le> x" by (simp only: x)
    then show ?thesis by (simp only: il)
  qed
qed

lemma ilog_upper:
  assumes "0 < x" "1 < b"
  shows "x < of_int b powi (ilog b x + 1)"
proof -
  obtain p q where pq: "quotient_of x = (p, q)" by (cases "quotient_of x")
  then have q: "0 < q" by (rule quotient_of_denom_pos)
  from pq have x: "x = of_int p / of_int q" by (rule quotient_of_div)
  with assms(1) q have p: "0 < p" by (simp add: zero_less_divide_iff)
  let ?B = "of_int b :: rat"
  have B: "1 < ?B" "?B \<noteq> 0" using assms(2) by simp_all
  let ?d = "int (digit_count b p) - int (digit_count b q)"
  show ?thesis
  proof (cases "?B powi ?d \<le> x")
    case False
    then have "ilog b x = ?d - 1" by (simp add: ilog_def pq)
    with False show ?thesis by simp
  next
    case True
    then have il: "ilog b x = ?d" by (simp add: ilog_def pq)
    from digit_count_bounds [OF p assms(2)] have up: "p < b ^ digit_count b p" by simp
    from digit_count_bounds [OF q assms(2)] have lq: "b ^ (digit_count b q - 1) \<le> q" by simp
    have cq: "0 < digit_count b q" using q assms(2) by (subst digit_count.simps) simp
    then have d1: "?d + 1 = int (digit_count b p) - int (digit_count b q - 1)" by simp
    have "(of_int p :: rat) / of_int q < ?B ^ digit_count b p / ?B ^ (digit_count b q - 1)"
    proof (rule frac_less)
      show "0 \<le> (of_int p :: rat)" using p by simp
      have "(of_int p :: rat) < of_int (b ^ digit_count b p)"
        using up by (simp only: of_int_less_iff)
      then show "(of_int p :: rat) < ?B ^ digit_count b p" by simp
      show "0 < ?B ^ (digit_count b q - 1)" using B(1) by simp
      have "(of_int (b ^ (digit_count b q - 1)) :: rat) \<le> of_int q"
        using lq by (simp only: of_int_le_iff)
      then show "?B ^ (digit_count b q - 1) \<le> (of_int q :: rat)" by simp
    qed
    also have "\<dots> = ?B powi (?d + 1)"
      unfolding d1 using B(2) by (simp add: power_int_diff)
    finally have "x < ?B powi (?d + 1)" by (simp only: x)
    then show ?thesis by (simp only: il)
  qed
qed

lemma round_half_even_close: "\<bar>of_int (round_half_even y) - y\<bar> \<le> 1 / 2"
proof -
  have "of_int \<lfloor>y\<rfloor> \<le> y" "y < of_int \<lfloor>y\<rfloor> + 1" by linarith+
  then show ?thesis
    by (auto simp: round_half_even_def Let_def abs_le_iff)
qed

lemma round_half_even_nonneg: "0 \<le> y \<Longrightarrow> 0 \<le> round_half_even y"
  by (auto simp: round_half_even_def Let_def)

lemma round_half_even_le: "y \<le> of_int m \<Longrightarrow> round_half_even y \<le> m"
proof -
  assume y: "y \<le> of_int m"
  have f: "of_int \<lfloor>y\<rfloor> \<le> y" by simp
  show ?thesis
  proof (cases "y = of_int m")
    case True
    then show ?thesis by (simp add: round_half_even_def)
  next
    case False
    with y have "y < of_int m" by simp
    then have "\<lfloor>y\<rfloor> < m" by (simp add: floor_less_iff)
    then show ?thesis
      by (auto simp: round_half_even_def Let_def)
  qed
qed

lemma to_double_no_overflow_below:
  assumes "q \<noteq> 0"
    and "max (ilog 2 \<bar>q\<bar>) (- 1022) < 1023"
  shows "of_int (round_half_even (\<bar>q\<bar> / 2 powi (max (ilog 2 \<bar>q\<bar>) (- 1022) - 52)))
           * 2 powi (max (ilog 2 \<bar>q\<bar>) (- 1022) - 52) < (2 ^ 1024 :: rat)"
proof -
  define a where "a = \<bar>q\<bar>"
  define e where "e = max (ilog 2 a) (- 1022)"
  define ulp :: rat where "ulp = 2 powi (e - 52)"
  have a: "0 < a" using assms(1) by (simp add: a_def)
  have e: "e < 1023" "ilog 2 a \<le> e" using assms(2) by (simp_all add: e_def a_def)
  have ulp_pos: "0 < ulp" by (simp add: ulp_def zero_less_power_int)
  have binade: "(2::rat) powi (e + 1) = 2 ^ 53 * ulp"
  proof -
    have "e + 1 = 53 + (e - 52)" by arith
    then have "(2::rat) powi (e + 1) = 2 powi (53 + (e - 52))" by (simp only:)
    also have "\<dots> = 2 powi 53 * 2 powi (e - 52)" by (rule power_int_add) simp
    also have "(2::rat) powi 53 = 2 ^ 53" by (simp add: power_int_def)
    finally show ?thesis by (simp only: ulp_def)
  qed
  have "a < 2 powi (ilog 2 a + 1)" using ilog_upper [OF a, of 2] by simp
  also have "\<dots> \<le> 2 powi (e + 1)"
    using e(2) by (intro power_int_increasing) simp_all
  also have "\<dots> = 2 ^ 53 * ulp" by (rule binade)
  finally have "a / ulp \<le> 2 ^ 53" using ulp_pos by (simp add: pos_divide_le_eq)
  then have "a / ulp \<le> of_int (2 ^ 53)" by simp
  then have "round_half_even (a / ulp) \<le> 2 ^ 53" by (rule round_half_even_le)
  then have "(of_int (round_half_even (a / ulp)) :: rat) \<le> of_int (2 ^ 53)"
    by (simp only: of_int_le_iff)
  then have "of_int (round_half_even (a / ulp)) * ulp \<le> 2 ^ 53 * ulp"
    using ulp_pos by (intro mult_right_mono) simp_all
  also have "\<dots> = 2 powi (e + 1)" by (rule binade [symmetric])
  also have "\<dots> \<le> 2 powi 1023"
    using e(1) by (intro power_int_increasing) simp_all
  also have "\<dots> < (2 ^ 1024 :: rat)" by (simp add: power_int_def)
  finally show ?thesis by (simp add: a_def e_def ulp_def)
qed

lemma to_double_overflow:
  "to_double q =
     (if q = 0 then Fin 0
      else let a = \<bar>q\<bar>;
               e = max (ilog 2 a) (- 1022);
               ulp = 2 powi (e - 52);
               v = of_int (round_half_even (a / ulp)) * ulp
           in if 2 ^ 1024 \<le> v then (if 0 < q then PosInf else NegInf)
              else Fin (if 0 < q then v else - v))"
proof (cases "q = 0")
  case True
  then show ?thesis by (simp add: to_double_def)
next
  case False
  show ?thesis
  proof (cases "max (ilog 2 \<bar>q\<bar>) (- 1022) < 1023")
    case True
    from to_double_no_overflow_below [OF False True] False True
    show ?thesis by (simp add: to_double_def Let_def)
  next
    case no: False
    with False show ?thesis by (simp add: to_double_def Let_def)
  qed
qed

lemma to_double_close:
  assumes "0 \<le> q" "q < 2 ^ 17"
  shows "\<exists>v. to_double q = Fin v \<and> 0 \<le> v \<and> \<bar>v - q\<bar> \<le> 1 / 2 ^ 37"
proof (cases "q = 0")
  case True
  then show ?thesis by (simp add: to_double_def)
next
  case False
  with assms(1) have pos: "0 < q" by simp
  define e where "e = max (ilog 2 q) (- 1022)"
  define ulp :: rat where "ulp = 2 powi (e - 52)"
  define rn where "rn = round_half_even (q / ulp)"
  have il16: "ilog 2 q \<le> 16"
  proof (rule ccontr)
    assume "\<not> ilog 2 q \<le> 16"
    then have "17 \<le> ilog 2 q" by simp
    then have "(2::rat) powi 17 \<le> 2 powi (ilog 2 q)"
      by (intro power_int_increasing) simp_all
    also have "\<dots> \<le> q" using ilog_lower [OF pos, of 2] by simp
    finally show False using assms(2) by simp
  qed
  then have e: "e \<le> 16" by (simp add: e_def)
  have ulp_pos: "0 < ulp" by (simp add: ulp_def zero_less_power_int)
  have "ulp \<le> 2 powi (- 36)"
    unfolding ulp_def using e by (intro power_int_increasing) simp_all
  moreover have "(2::rat) powi (- 36) = 1 / 2 ^ 36" by code_simp
  ultimately have ulp_le: "ulp \<le> 1 / 2 ^ 36" by simp
  have val: "to_double q = Fin (of_int rn * ulp)"
    using pos il16 by (simp add: to_double_def Let_def rn_def ulp_def e_def)
  have nonneg: "0 \<le> of_int rn * ulp"
    using round_half_even_nonneg [of "q / ulp"] pos ulp_pos by (simp add: rn_def)
  have "\<bar>of_int rn * ulp - q\<bar> = \<bar>of_int rn - q / ulp\<bar> * ulp"
  proof -
    have "of_int rn * ulp - q = (of_int rn - q / ulp) * ulp"
      using ulp_pos by (simp add: field_simps)
    then show ?thesis using ulp_pos by (simp add: abs_mult)
  qed
  also have "\<dots> \<le> (1 / 2) * ulp"
    using round_half_even_close [of "q / ulp"] ulp_pos
    by (intro mult_right_mono) (simp_all add: rn_def)
  also have "\<dots> \<le> (1 / 2) * (1 / 2 ^ 36)"
    using ulp_le by (intro mult_left_mono) simp_all
  also have "\<dots> = 1 / 2 ^ 37" by simp
  finally show ?thesis using val nonneg by blast
qed

subsection \<open>Reading back a bid written with two decimals\<close>

lemma parseFloat_string_decimal:
  assumes ip: "ip \<noteq> []" "list_all is_digit ip" and fp: "list_all is_digit fp"
  shows "parseFloat_string (ip @ ''.'' @ fp) =
           to_double (of_int (int_of_digits (ip @ fp)) * 10 powi (- int (length fp)))"
proof -
  obtain c cs where cs: "ip = c # cs" using ip(1) by (cases ip) auto
  with ip(2) have c: "is_digit c" by simp
  note nc = is_digit_chars [OF c]
  let ?s = "ip @ CHR ''.'' # fp"
  have s: "ip @ ''.'' @ fp = ?s" by simp
  have trim: "dropWhile js_whitespace ?s = ?s" using nc(1) by (simp add: cs)
  have inf: "take 8 ?s \<noteq> ''Infinity''" using nc(4) by (simp add: cs)
  have dot: "\<not> is_digit CHR ''.''" by (simp add: is_digit_def)
  have all_ip: "\<forall>x\<in>set ip. is_digit x" using ip(2) by (simp add: list_all_iff)
  have all_fp: "\<forall>x\<in>set fp. is_digit x" using fp by (simp add: list_all_iff)
  have tw: "takeWhile is_digit ?s = ip"
    using all_ip dot by (simp add: takeWhile_append2)
  have dw: "dropWhile is_digit ?s = CHR ''.'' # fp"
    using all_ip dot by (simp add: dropWhile_append2)
  have tw2: "takeWhile is_digit fp = fp" using all_fp by (simp add: takeWhile_eq_all_conv)
  have dw2: "dropWhile is_digit fp = []" using all_fp by (simp add: dropWhile_eq_Nil_conv)
  have ex: "exponent_part [] = 0" by (simp add: exponent_part_def)
  have first: "(case ?s of [] \<Rightarrow> (False, [])
                 | c # r \<Rightarrow> if c = CHR ''-'' then (True, r)
                            else if c = CHR ''+'' then (False, r) else (False, ?s)) = (False, ?s)"
    using nc(2,3) by (simp add: cs)
  have "parseFloat_string ?s =
           to_double (of_int (int_of_digits (ip @ fp)) * 10 powi (- int (length fp)))"
    unfolding parseFloat_string_def Let_def trim first
    using inf ip(1) by (simp add: tw dw tw2 dw2 ex)
  then show ?thesis by (simp only: s)
qed

lemma parseFloat_string_fixed2:
  assumes "0 \<le> n"
  shows "parseFloat_string (fixed2 n) = to_double (of_int n / 100)"
proof -
  from fixed2_parts [OF assms] obtain ip fp where p: "fixed2 n = ip @ ''.'' @ fp" "ip \<noteq> []"
      "list_all is_digit ip" "list_all is_digit fp" "length fp = 2" "int_of_digits (ip @ fp) = n"
    by blast
  have "(10::rat) powi (- 2) = 1 / 100" by code_simp
  with parseFloat_string_decimal [OF p(2,3,4)] p(1,5,6) show ?thesis by simp
qed

lemma canonical_bid_read:
  assumes "0 \<le> v" "v \<le> 100000"
  shows "\<exists>w. parseFloat_string (toFixed2 (Fin v)) = Fin w \<and> toFixed2 (Fin w) = toFixed2 (Fin v)"
proof -
  define n where "n = \<lfloor>v * 100 + 1 / 2\<rfloor>"
  have n0: "0 \<le> n" using assms(1) by (simp add: n_def)
  have "v * 100 + 1 / 2 \<le> 10000000 + 1 / 2" using assms(2) by simp
  then have "n \<le> \<lfloor>10000000 + 1 / 2 :: rat\<rfloor>" unfolding n_def by (rule floor_mono)
  also have "\<dots> = 10000000" by linarith
  finally have n1: "n \<le> 10000000" .
  have s: "toFixed2 (Fin v) = fixed2 n"
    using assms toFixed2_fixed2 [of v] by (simp add: n_def)
  let ?q = "of_int n / 100 :: rat"
  have q: "0 \<le> ?q" "?q < 2 ^ 17" using n0 n1 by simp_all
  from to_double_close [OF q] obtain v' where v': "to_double ?q = Fin v'" "0 \<le> v'"
      "\<bar>v' - ?q\<bar> \<le> 1 / 2 ^ 37"
    by blast
  have p: "parseFloat_string (fixed2 n) = Fin v'"
    using parseFloat_string_fixed2 [OF n0] v'(1) by simp
  from v'(3) have hi: "v' - ?q \<le> 1 / 2 ^ 37" and lo: "- (v' - ?q) \<le> 1 / 2 ^ 37"
    unfolding abs_le_iff by blast+
  have "\<lfloor>v' * 100 + 1 / 2\<rfloor> = n"
  proof (rule floor_unique)
    from lo show "of_int n \<le> v' * 100 + 1 / 2" by simp
    from hi show "v' * 100 + 1 / 2 < of_int n + 1" by simp
  qed
  moreover have "v' < 10 ^ 21"
  proof -
    from hi have "v' \<le> ?q + 1" by simp
    also have "\<dots> \<le> 10000000 / 100 + 1" using n1 by simp
    finally show ?thesis by simp
  qed
  ultimately have "toFixed2 (Fin v') = fixed2 n"
    using toFixed2_fixed2 [OF v'(2)] by simp
  with s p show ?thesis by simp
qed

lemma canonical_bid_round_trip:
  assumes "0 \<le> v" "v \<le> 100000"
  shows "toFixed2 (parseFloat_string (toFixed2 (Fin v))) = toFixed2 (Fin v)"
  using canonical_bid_read [OF assms] by auto

lemma validateBid_round_trip:
  assumes "validateBid bid"
  shows "toFixed2 (parseFloat (JStr (toFixed2 (parseFloat bid)))) = toFixed2 (parseFloat bid)"
proof -
  from validateBid_range [OF assms] obtain v where v: "parseFloat bid = Fin v" "0 < v" "v \<le> 100000"
    by blast
  have "parseFloat (JStr (toFixed2 (Fin v))) = parseFloat_string (toFixed2 (Fin v))"
    by (simp add: parseFloat_def js_String_def)
  with canonical_bid_round_trip [of v] v show ?thesis by simp
qed

lemma validateBid_stored_number:
  assumes "validateBid bid"
  shows "\<not> isNaN (parseFloat (JStr (toFixed2 (parseFloat bid))))"
proof -
  from validateBid_range [OF assms] obtain v where v: "parseFloat bid = Fin v" "0 < v" "v \<le> 100000"
    by blast
  have "parseFloat (JStr (toFixed2 (Fin v))) = parseFloat_string (toFixed2 (Fin v))"
    by (simp add: parseFloat_def js_String_def)
  with canonical_bid_read [of v] v show ?thesis by (auto simp: isNaN_def)
qed

subsection \<open>The reveal and result handlers\<close>

lemma post_reveal_checked:
  assumes tok: "seatToken \<noteq> []" and sec: "secret \<noteq> []" and ok: "validateBid bid"
    and res: "getAuctionBySeatToken db auctionId seatToken = Some (auction, s)"
    and ca: "truthy (commit_a auction)" and cb: "truthy (commit_b auction)"
    and fresh: "bid_of s auction = None"
  shows "post_reveal sha256 db auctionId (Some seatToken) bid (Some secret) =
     (if commit_of s auction = Some (sha256 (commit_payload bid secret auctionId s))
      then (OkTrue, setReveal db auctionId s (parseFloat (JStr (toFixed2 (parseFloat bid)))) secret)
      else (HashMismatch, db))"
proof -
  have def: "bid \<noteq> JUndefined" using ok by (rule validateBid_defined)
  have eb: "(if s = SeatA then bid_a auction else bid_b auction) = None"
    using fresh by (simp add: bid_of_def)
  have sc: "(if s = SeatA then commit_a auction else commit_b auction) = commit_of s auction"
    by (simp add: commit_of_def)
  show ?thesis
    unfolding post_reveal_def Let_def
    using tok sec ok def res ca cb eb
    by (auto simp: truthy_def sc computeHash_def commit_payload_def HashMismatch_def)
qed

lemma post_reveal_ok:
  assumes "post_reveal sha256 db i (Some t) bid (Some x) = (OkTrue, db')"
    and "getAuctionBySeatToken db i t = Some (a, s)"
  shows "validateBid bid" "truthy (commit_a a)" "truthy (commit_b a)" "bid_of s a = None"
    "commit_of s a = Some (sha256 (commit_payload bid x i s))"
    "db' = update_rows i (with_reveal s (parseFloat (JStr (toFixed2 (parseFloat bid)))) x) db"
  using assms
  by (auto simp: post_reveal_def Let_def bid_of_def commit_of_def commit_payload_def
      computeHash_def setReveal_update validateBid_stored_number split: if_splits)

lemma get_result_revealed:
  assumes "getAuctionById db auctionId = Some auction" "bid_a auction = Some a" "bid_b auction = Some b"
  shows "get_result db auctionId = Result \<lparr>
           result_title = title auction,
           result_description = description auction,
           result_itemUrl = item_url auction,
           bidA = toFixed2 a,
           bidB = toFixed2 b,
           winner = (if js_gt a b then ''A'' else if js_gt b a then ''B'' else ''TIE''),
           paymentAmount = (if js_gt a b then Some (toFixed2 a)
                            else if js_gt b a then Some (toFixed2 b) else None) \<rparr>"
  using assms by (simp add: get_result_def Let_def)

lemma get_result_bids:
  assumes "get_result db i = Result res" "getAuctionById db i = Some r"
  shows "bid_a r \<noteq> None" "bid_b r \<noteq> None"
    "bidA res = toFixed2 (the (bid_a r))" "bidB res = toFixed2 (the (bid_b r))"
proof -
  from assms have both: "bid_a r \<noteq> None \<and> bid_b r \<noteq> None"
    by (auto simp: get_result_def split: if_splits)
  then obtain a b where ab: "bid_a r = Some a" "bid_b r = Some b" by auto
  from get_result_revealed [OF assms(2) ab] assms(1) ab
  show "bid_a r \<noteq> None" "bid_b r \<noteq> None"
    "bidA res = toFixed2 (the (bid_a r))" "bidB res = toFixed2 (the (bid_b r))"
    by auto
qed

subsection \<open>Every request is a step that keeps the invariant\<close>

lemma post_commit_step: "table_step db (snd (post_commit db i t c))"
proof (cases "truthy t \<and> truthy c \<and> commit_format (the c)")
  case False
  then show ?thesis by (auto simp: post_commit_def intro: table_step.unchanged)
next
  case True
  then have c: "the c \<noteq> []" by (auto simp: commit_format_nonempty)
  show ?thesis
  proof (cases "getAuctionBySeatToken db i (the t)")
    case None
    with True show ?thesis by (simp add: post_commit_def table_step.unchanged)
  next
    case (Some p)
    obtain a s where p: "p = (a, s)" by (cases p)
    show ?thesis
    proof (cases "truthy (commit_of s a)")
      case yes: True
      with True Some p show ?thesis
        by (simp add: post_commit_def commit_of_def table_step.unchanged)
    next
      case no: False
      from Some p have "getAuctionBySeatToken db i (the t) = Some (a, s)" by simp
      from table_step.committed [OF this no c]
      show ?thesis using True Some p no
        by (simp add: post_commit_def commit_of_def setCommit_update)
    qed
  qed
qed

lemma post_reset_commit_step: "table_step db (snd (post_reset_commit db i t))"
proof (cases "truthy t")
  case False
  then show ?thesis by (simp add: post_reset_commit_def table_step.unchanged)
next
  case True
  show ?thesis
  proof (cases "getAuctionBySeatToken db i (the t)")
    case None
    with True show ?thesis by (simp add: post_reset_commit_def table_step.unchanged)
  next
    case (Some p)
    obtain a s where p: "p = (a, s)" by (cases p)
    have other: "commit_of (other_seat s) a = (if s = SeatA then commit_b a else commit_a a)"
      by (simp add: commit_of_def other_seat_def)
    show ?thesis
    proof (cases "truthy (commit_of (other_seat s) a)")
      case yes: True
      with True Some p other show ?thesis
        by (simp add: post_reset_commit_def table_step.unchanged)
    next
      case no: False
      from Some p have "getAuctionBySeatToken db i (the t) = Some (a, s)" by simp
      from table_step.cleared [OF this no]
      show ?thesis using True Some p no other
        by (simp add: post_reset_commit_def resetCommit_update)
    qed
  qed
qed

lemma post_reveal_step: "table_step db (snd (post_reveal sha256 db i t bid x))"
proof (cases "truthy t \<and> bid \<noteq> JUndefined \<and> truthy x \<and> validateBid bid")
  case False
  then show ?thesis by (auto simp: post_reveal_def table_step.unchanged)
next
  case True
  show ?thesis
  proof (cases "getAuctionBySeatToken db i (the t)")
    case None
    with True show ?thesis by (simp add: post_reveal_def table_step.unchanged)
  next
    case (Some p)
    obtain a s where p: "p = (a, s)" by (cases p)
    have bo: "bid_of s a = (if s = SeatA then bid_a a else bid_b a)"
      by (simp add: bid_of_def)
    show ?thesis
    proof (cases "truthy (commit_a a) \<and> truthy (commit_b a) \<and> bid_of s a = None")
      case no: False
      with True Some p bo show ?thesis
        by (auto simp: post_reveal_def Let_def table_step.unchanged)
    next
      case yes: True
      from Some p have r: "getAuctionBySeatToken db i (the t) = Some (a, s)" by simp
      from yes have ca: "truthy (commit_a a)" and cb: "truthy (commit_b a)"
        and fresh: "bid_of s a = None" by simp_all
      note stepped = table_step.revealed [OF r ca cb fresh]
      show ?thesis
        using True Some p yes bo stepped
        by (simp add: post_reveal_def Let_def setReveal_update validateBid_stored_number
            table_step.unchanged)
    qed
  qed
qed

lemma post_auction_step: "table_step db (snd (post_auction db baseUrl draws now t d u))"
proof -
  obtain i ta tb where draws: "draws = (i, ta, tb)" by (cases draws)
  show ?thesis
    by (auto simp: post_auction_def createAuction_def draws Let_def
        intro: table_step.unchanged table_step.created split: option.splits if_splits)
qed

lemma handle_step: "table_step db (snd (handle sha256 db req))"
  by (cases req)
    (simp_all add: post_auction_step post_commit_step post_reset_commit_step post_reveal_step
      table_step.unchanged)

lemma bids_need_commits:
  assumes "table_inv db" "r \<in> set db" "bid_of s r \<noteq> None"
  shows "truthy (commit_a r)" and "truthy (commit_b r)"
proof -
  from assms(1,2) have "reveal_needs_commits r"
    by (simp add: table_inv_def list_all_iff)
  moreover from assms(3) have "bid_a r \<noteq> None \<or> bid_b r \<noteq> None"
    by (auto simp: bid_of_def split: if_splits)
  ultimately show "truthy (commit_a r)" and "truthy (commit_b r)"
    by (auto simp: reveal_needs_commits_def)
qed

lemma no_commit_no_bids:
  assumes "table_inv db" "r \<in> set db" "\<not> truthy (commit_of s r)"
  shows "bid_a r = None" and "bid_b r = None"
proof -
  from assms(1,2) have "reveal_needs_commits r"
    by (simp add: table_inv_def list_all_iff)
  moreover from assms(3) have "\<not> (truthy (commit_a r) \<and> truthy (commit_b r))"
    by (auto simp: commit_of_def split: if_splits)
  ultimately show "bid_a r = None" and "bid_b r = None"
    by (auto simp: reveal_needs_commits_def)
qed

lemma update_rows_inv:
  assumes inv: "table_inv db"
    and res: "getAuctionBySeatToken db i t = Some (a, s)"
    and id: "\<And>r. auction_id (f r) = auction_id r"
    and ok: "reveal_needs_commits (f a)"
  shows "table_inv (update_rows i f db)"
proof -
  from inv have pk: "distinct (map auction_id db)" and all: "list_all reveal_needs_commits db"
    by (simp_all add: table_inv_def)
  note a = resolved_row [OF res]
  have each: "\<forall>r\<in>set db. reveal_needs_commits (if auction_id r = i then f r else r)"
  proof
    fix r
    assume mem: "r \<in> set db"
    show "reveal_needs_commits (if auction_id r = i then f r else r)"
    proof (cases "auction_id r = i")
      case True
      with a mem pk have "r = a" by (auto intro: row_of_id_unique)
      with True ok show ?thesis by simp
    next
      case False
      with mem all show ?thesis by (simp add: list_all_iff)
    qed
  qed
  then have "list_all (\<lambda>r. reveal_needs_commits (if auction_id r = i then f r else r)) db"
    by (simp add: list_all_iff)
  then have "list_all reveal_needs_commits (update_rows i f db)"
    by (simp only: update_rows_def list.pred_map o_def)
  with pk show ?thesis
    by (simp add: table_inv_def update_rows_ids [OF id])
qed

lemma table_step_inv:
  assumes "table_step db db'" and inv: "table_inv db"
  shows "table_inv db'"
  using assms(1)
proof (cases rule: table_step.cases)
  case unchanged
  with inv show ?thesis by simp
next
  case (committed i t a s c)
  note a = resolved_row [OF committed(2)]
  from no_commit_no_bids [OF inv a(1) committed(3)]
  have ok: "reveal_needs_commits (with_commit s (Some c) a)"
    by (simp add: reveal_needs_commits_def with_commit_def)
  have "table_inv (update_rows i (with_commit s (Some c)) db)"
    by (rule update_rows_inv [OF inv committed(2)]) (simp, rule ok)
  with committed(1) show ?thesis by simp
next
  case (cleared i t a s)
  note a = resolved_row [OF cleared(2)]
  from no_commit_no_bids [OF inv a(1) cleared(3)]
  have ok: "reveal_needs_commits (with_commit s None a)"
    by (simp add: reveal_needs_commits_def with_commit_def)
  have "table_inv (update_rows i (with_commit s None) db)"
    by (rule update_rows_inv [OF inv cleared(2)]) (simp, rule ok)
  with cleared(1) show ?thesis by simp
next
  case (revealed i t a s v x)
  from revealed(3,4)
  have ok: "reveal_needs_commits (with_reveal s v x a)"
    by (simp add: reveal_needs_commits_def with_reveal_def)
  have "table_inv (update_rows i (with_reveal s v x) db)"
    by (rule update_rows_inv [OF inv revealed(2)]) (simp, rule ok)
  with revealed(1) show ?thesis by simp
next
  case (created row)
  with inv show ?thesis
    by (simp add: table_inv_def reveal_needs_commits_def)
qed

lemma table_step_frozen:
  assumes step: "table_step db db'" and inv: "table_inv db"
    and found: "getAuctionById db j = Some r" and bid: "bid_of s0 r \<noteq> None"
  shows "\<exists>r'. getAuctionById db' j = Some r' \<and> commit_of s0 r' = commit_of s0 r
              \<and> bid_of s0 r' = bid_of s0 r"
  using step
proof (cases rule: table_step.cases)
  case unchanged
  with found show ?thesis by simp
next
  case (committed i t a s c)
  from inv have pk: "distinct (map auction_id db)" by (simp add: table_inv_def)
  show ?thesis
  proof (cases "j = i")
    case False
    with committed(1) found show ?thesis by (simp add: getAuctionById_update_rows)
  next
    case True
    with found getAuctionById_of_token [OF pk committed(2)] have "r = a" by simp
    with bids_need_commits [OF inv getAuctionById_mem [OF found] bid] committed(3)
    show ?thesis by (auto simp: commit_of_def split: if_splits)
  qed
next
  case (cleared i t a s)
  from inv have pk: "distinct (map auction_id db)" by (simp add: table_inv_def)
  show ?thesis
  proof (cases "j = i")
    case False
    with cleared(1) found show ?thesis by (simp add: getAuctionById_update_rows)
  next
    case True
    with found getAuctionById_of_token [OF pk cleared(2)] have "r = a" by simp
    with bids_need_commits [OF inv getAuctionById_mem [OF found] bid] cleared(3)
    show ?thesis by (auto simp: commit_of_def split: if_splits)
  qed
next
  case (revealed i t a s v x)
  from inv have pk: "distinct (map auction_id db)" by (simp add: table_inv_def)
  show ?thesis
  proof (cases "j = i")
    case False
    with revealed(1) found show ?thesis by (simp add: getAuctionById_update_rows)
  next
    case True
    with found getAuctionById_of_token [OF pk revealed(2)] have ra: "r = a" by simp
    with bid revealed(5) have "s \<noteq> s0" by auto
    then have "commit_of s0 (with_reveal s v x a) = commit_of s0 a"
        "bid_of s0 (with_reveal s v x a) = bid_of s0 a"
      by (cases s; cases s0; simp add: commit_of_def bid_of_def with_reveal_def)+
    with True found ra revealed(1) show ?thesis
      by (simp add: getAuctionById_update_rows)
  qed
next
  case (created row)
  from found have "getAuctionById (db @ [row]) j = Some r"
    by (simp add: getAuctionById_def find_append_found)
  with created(1) show ?thesis by simp
qed

lemma run_inv: "table_inv db \<Longrightarrow> table_inv (run sha256 db rs)"
proof (induction rs arbitrary: db)
  case Nil
  then show ?case by simp
next
  case (Cons req rs)
  from table_step_inv [OF handle_step Cons.prems]
  have "table_inv (snd (handle sha256 db req))" .
  from Cons.IH [OF this] show ?case by simp
qed

lemma run_frozen:
  assumes "table_inv db" "getAuctionById db j = Some r" "bid_of s0 r \<noteq> None"
  shows "\<exists>r'. getAuctionById (run sha256 db rs) j = Some r' \<and> commit_of s0 r' = commit_of s0 r
              \<and> bid_of s0 r' = bid_of s0 r"
  using assms
proof (induction rs arbitrary: db r)
  case Nil
  then show ?case by simp
next
  case (Cons req rs)
  let ?db = "snd (handle sha256 db req)"
  from table_step_inv [OF handle_step Cons.prems(1)]
  have inv': "table_inv ?db" .
  from table_step_frozen [OF handle_step Cons.prems]
  obtain r1 where r1: "getAuctionById ?db j = Some r1" "commit_of s0 r1 = commit_of s0 r"
      "bid_of s0 r1 = bid_of s0 r"
    by blast
  with Cons.prems(3) have "bid_of s0 r1 \<noteq> None" by simp
  from Cons.IH [OF inv' r1(1) this] r1(2,3)
  show ?case by auto
qed

lemma table_inv_empty: "table_inv []"
  by (simp add: table_inv_def)

subsection \<open>The example auction, evaluated\<close>

lemma validateBid_150: "validateBid (JStr ''150.00'')"
  by code_simp

lemma toFixed2_150: "toFixed2 (parseFloat (JStr ''150.00'')) = ''150.00''"
  by code_simp

lemma parseFloat_150: "parseFloat (JStr ''150.00'') = Fin 150"
  by code_simp

lemma example_commits_run: "run example_sha [] (take 3 example_session) = [committed_auction]"
  by code_simp

lemma example_reveal_a:
  "post_reveal example_sha [committed_auction] ''a1'' (Some ''ta'') (JStr ''150.00'') (Some ''peanut'')
     = (OkTrue, [half_revealed_auction])"
  by code_simp

lemma example_session_run: "run example_sha [] example_session = [half_revealed_auction]"
  by code_simp

lemma example_result:
  "get_result (run example_sha [half_revealed_auction] example_last_reveal) ''a1''
     = Result \<lparr> result_title = ''Sofa'', result_description = None, result_itemUrl = None,
                bidA = ''150.00'', bidB = ''200.00'', winner = ''B'', paymentAmount = Some ''200.00'' \<rparr>"
  by code_simp

section \<open>The claims\<close>

subsection \<open>Reveal verifies the commitment\<close>

text \<open>
  Claim C1. Take a Reveal request whose seat the handler resolves, for an auction
  that has both commits and no bid for this seat yet. The handler looks the seat up
  only after its input checks, so the request carries a token, a secret and a bid
  that \<open>validateBid\<close> accepts. The request succeeds if and only if the digest
  computed from the supplied bid and secret, this auction's id and this seat's label
  equals the commit stored for the seat. When the digests are equal the answer is
  \<open>OkTrue\<close> and the table is the old one with the bid and the secret of this seat
  set in the rows of this auction, every other field and every other row as before:
  the bid stored is \<^verbatim>\<open>parseFloat\<close> of the two-decimal string of the supplied bid, the
  secret stored is the supplied one, and the same token resolves to that row and
  the same seat. When the digests differ the request fails with \<open>HashMismatch\<close> and
  the whole table is unchanged, so that a second Reveal of the same seat with inputs
  that do match then succeeds and stores those inputs.
\<close>

theorem reveal_iff_digest_matches:
  assumes tok: "seatToken \<noteq> []" and sec: "secret \<noteq> []" and ok: "validateBid bid"
    and res: "getAuctionBySeatToken db auctionId seatToken = Some (auction, s)"
    and ca: "truthy (commit_a auction)" and cb: "truthy (commit_b auction)"
    and fresh: "bid_of s auction = None"
  shows "(fst (post_reveal sha256 db auctionId (Some seatToken) bid (Some secret)) = OkTrue
            \<longleftrightarrow> commit_of s auction = Some (sha256 (commit_payload bid secret auctionId s)))
       \<and> (commit_of s auction = Some (sha256 (commit_payload bid secret auctionId s)) \<longrightarrow>
            post_reveal sha256 db auctionId (Some seatToken) bid (Some secret) =
              (OkTrue,
               map (\<lambda>r. if auction_id r = auctionId
                        then with_reveal s (parseFloat (JStr (toFixed2 (parseFloat bid)))) secret r
                        else r) db)
          \<and> getAuctionBySeatToken
                (snd (post_reveal sha256 db auctionId (Some seatToken) bid (Some secret)))
                auctionId seatToken =
              Some (if s = SeatA
                    then auction\<lparr>bid_a := Some (parseFloat (JStr (toFixed2 (parseFloat bid)))),
                                 secret_a := Some secret\<rparr>
                    else auction\<lparr>bid_b := Some (parseFloat (JStr (toFixed2 (parseFloat bid)))),
                                 secret_b := Some secret\<rparr>, s))
       \<and> (commit_of s auction \<noteq> Some (sha256 (commit_payload bid secret auctionId s)) \<longrightarrow>
            post_reveal sha256 db auctionId (Some seatToken) bid (Some secret) = (HashMismatch, db)
          \<and> (\<forall>bid' secret'. validateBid bid' \<and> secret' \<noteq> []
                \<and> commit_of s auction = Some (sha256 (commit_payload bid' secret' auctionId s)) \<longrightarrow>
                post_reveal sha256
                  (snd (post_reveal sha256 db auctionId (Some seatToken) bid (Some secret)))
                  auctionId (Some seatToken) bid' (Some secret') =
                  (OkTrue,
                   map (\<lambda>r. if auction_id r = auctionId
                            then with_reveal s (parseFloat (JStr (toFixed2 (parseFloat bid')))) secret' r
                            else r) db)))"
proof -
  let ?d = "sha256 (commit_payload bid secret auctionId s)"
  let ?v = "parseFloat (JStr (toFixed2 (parseFloat bid)))"
  let ?g = "\<lambda>r. if auction_id r = auctionId then with_reveal s ?v secret r else r"
  let ?P = "\<lambda>r. auction_id r = auctionId \<and> (seat_a_token r = seatToken \<or> seat_b_token r = seatToken)"
  have stores: "post_reveal sha256 db auctionId (Some seatToken) bid' (Some secret') =
      (if commit_of s auction = Some (sha256 (commit_payload bid' secret' auctionId s))
       then (OkTrue,
             map (\<lambda>r. if auction_id r = auctionId
                      then with_reveal s (parseFloat (JStr (toFixed2 (parseFloat bid')))) secret' r
                      else r) db)
       else (HashMismatch, db))"
    if "validateBid bid'" and "secret' \<noteq> []" for bid' secret'
    using post_reveal_checked [OF tok that(2) that(1) res ca cb fresh, of sha256]
      setReveal_update [OF validateBid_stored_number [OF that(1)], of db auctionId s secret']
    by (simp add: update_rows_def)
  note first = stores [OF ok sec]
  have iff: "fst (post_reveal sha256 db auctionId (Some seatToken) bid (Some secret)) = OkTrue
            \<longleftrightarrow> commit_of s auction = Some ?d"
    using first by (simp add: HashMismatch_def)
  have match: "post_reveal sha256 db auctionId (Some seatToken) bid (Some secret) = (OkTrue, map ?g db)"
    if "commit_of s auction = Some ?d"
    using first that by simp
  have mismatch: "post_reveal sha256 db auctionId (Some seatToken) bid (Some secret) = (HashMismatch, db)"
    if "commit_of s auction \<noteq> Some ?d"
    using first that by simp
  have found: "find ?P db = Some auction"
    and seat: "s = (if seat_a_token auction = seatToken then SeatA else SeatB)"
    using res by (auto simp: getAuctionBySeatToken_def split: option.splits)
  have same: "?P (?g r) = ?P r" for r
    by (simp add: with_reveal_def)
  have row: "?g auction =
      (if s = SeatA then auction\<lparr>bid_a := Some ?v, secret_a := Some secret\<rparr>
       else auction\<lparr>bid_b := Some ?v, secret_b := Some secret\<rparr>)"
    using resolved_row(2) [OF res] by (simp add: with_reveal_def)
  have tokens: "seat_a_token (?g auction) = seat_a_token auction"
    by (simp add: with_reveal_def)
  have "getAuctionBySeatToken (map ?g db) auctionId seatToken = Some (?g auction, s)"
    using find_map_same [of ?P ?g db, OF same] found seat tokens
    by (simp add: getAuctionBySeatToken_def)
  then have look: "getAuctionBySeatToken (map ?g db) auctionId seatToken =
      Some (if s = SeatA then auction\<lparr>bid_a := Some ?v, secret_a := Some secret\<rparr>
            else auction\<lparr>bid_b := Some ?v, secret_b := Some secret\<rparr>, s)"
    by (simp only: row)
  have retry: "post_reveal sha256
                  (snd (post_reveal sha256 db auctionId (Some seatToken) bid (Some secret)))
                  auctionId (Some seatToken) bid' (Some secret') =
                  (OkTrue,
                   map (\<lambda>r. if auction_id r = auctionId
                            then with_reveal s (parseFloat (JStr (toFixed2 (parseFloat bid')))) secret' r
                            else r) db)"
    if "commit_of s auction \<noteq> Some ?d" and "validateBid bid'" and "secret' \<noteq> []"
      and "commit_of s auction = Some (sha256 (commit_payload bid' secret' auctionId s))"
    for bid' secret'
    using mismatch [OF that(1)] stores [OF that(2) that(3)] that(4)
    by simp
  have good: "commit_of s auction = Some ?d \<longrightarrow>
      post_reveal sha256 db auctionId (Some seatToken) bid (Some secret) = (OkTrue, map ?g db)
      \<and> getAuctionBySeatToken
            (snd (post_reveal sha256 db auctionId (Some seatToken) bid (Some secret)))
            auctionId seatToken =
          Some (if s = SeatA then auction\<lparr>bid_a := Some ?v, secret_a := Some secret\<rparr>
                else auction\<lparr>bid_b := Some ?v, secret_b := Some secret\<rparr>, s)"
    using match look by simp
  have bad: "commit_of s auction \<noteq> Some ?d \<longrightarrow>
      post_reveal sha256 db auctionId (Some seatToken) bid (Some secret) = (HashMismatch, db)
      \<and> (\<forall>bid' secret'. validateBid bid' \<and> secret' \<noteq> []
            \<and> commit_of s auction = Some (sha256 (commit_payload bid' secret' auctionId s)) \<longrightarrow>
            post_reveal sha256
              (snd (post_reveal sha256 db auctionId (Some seatToken) bid (Some secret)))
              auctionId (Some seatToken) bid' (Some secret') =
              (OkTrue,
               map (\<lambda>r. if auction_id r = auctionId
                        then with_reveal s (parseFloat (JStr (toFixed2 (parseFloat bid')))) secret' r
                        else r) db))"
    using mismatch retry by blast
  show ?thesis
    by (intro conjI) (rule iff, rule good, rule bad)
qed

theorem reveal_iff_digest_matches_witness:
  "post_reveal example_sha [committed_auction] ''a1'' (Some ''ta'') (JStr ''150.00'') (Some ''wrong'')
     = (HashMismatch, [committed_auction])
   \<and> post_reveal example_sha [committed_auction] ''a1'' (Some ''ta'') (JStr ''150.00'') (Some ''peanut'')
     = (OkTrue, [half_revealed_auction])
   \<and> getAuctionBySeatToken [half_revealed_auction] ''a1'' ''ta''
     = Some (committed_auction\<lparr>bid_a := Some (Fin 150), secret_a := Some ''peanut''\<rparr>, SeatA)"
proof -
  have tok: "''ta'' \<noteq> []" by simp
  have sec1: "''wrong'' \<noteq> []" and sec2: "''peanut'' \<noteq> []" by simp_all
  have res: "getAuctionBySeatToken [committed_auction] ''a1'' ''ta'' = Some (committed_auction, SeatA)"
    by (simp add: getAuctionBySeatToken_def committed_auction_def example_auction_def)
  have ca: "truthy (commit_a committed_auction)" and cb: "truthy (commit_b committed_auction)"
    by (simp_all add: truthy_def committed_auction_def)
  have fresh: "bid_of SeatA committed_auction = None"
    by (simp add: bid_of_def committed_auction_def example_auction_def)
  have stored: "commit_of SeatA committed_auction = Some (replicate 64 CHR ''a'')"
    by (simp add: commit_of_def committed_auction_def)
  have p1: "commit_payload (JStr ''150.00'') ''wrong'' ''a1'' SeatA = ''150.00|wrong|a1|A''"
    by (simp add: commit_payload_def toFixed2_150 seat_label_def)
  have p2: "commit_payload (JStr ''150.00'') ''peanut'' ''a1'' SeatA = ''150.00|peanut|a1|A''"
    by (simp add: commit_payload_def toFixed2_150 seat_label_def)
  have ne: "replicate 64 CHR ''a'' \<noteq> replicate 64 CHR ''b''"
    by (simp add: replicate_eq_replicate)
  have d1: "commit_of SeatA committed_auction
      \<noteq> Some (example_sha (commit_payload (JStr ''150.00'') ''wrong'' ''a1'' SeatA))"
    using ne by (simp add: stored p1 example_sha_def)
  have d2: "commit_of SeatA committed_auction
      = Some (example_sha (commit_payload (JStr ''150.00'') ''peanut'' ''a1'' SeatA))"
    by (simp add: stored p2 example_sha_def)
  have v: "parseFloat (JStr (toFixed2 (parseFloat (JStr ''150.00'')))) = Fin 150"
    by (subst toFixed2_150) (rule parseFloat_150)
  have id: "auction_id committed_auction = ''a1''"
    by (simp add: committed_auction_def example_auction_def)
  have row: "with_reveal SeatA (Fin 150) ''peanut'' committed_auction = half_revealed_auction"
    by (simp add: with_reveal_def half_revealed_auction_def)
  note wrong = reveal_iff_digest_matches [OF tok sec1 validateBid_150 res ca cb fresh, of example_sha]
  note right = reveal_iff_digest_matches [OF tok sec2 validateBid_150 res ca cb fresh, of example_sha]
  from mp [OF conjunct2 [OF conjunct2 [OF wrong]] d1]
  have a: "post_reveal example_sha [committed_auction] ''a1'' (Some ''ta'') (JStr ''150.00'') (Some ''wrong'')
     = (HashMismatch, [committed_auction])"
    by (rule conjunct1)
  note matched = mp [OF conjunct1 [OF conjunct2 [OF right]] d2]
  have b: "post_reveal example_sha [committed_auction] ''a1'' (Some ''ta'') (JStr ''150.00'') (Some ''peanut'')
     = (OkTrue, [half_revealed_auction])"
    using conjunct1 [OF matched] by (simp add: v id row)
  have c: "getAuctionBySeatToken [half_revealed_auction] ''a1'' ''ta''
     = Some (committed_auction\<lparr>bid_a := Some (Fin 150), secret_a := Some ''peanut''\<rparr>, SeatA)"
    using conjunct2 [OF matched] by (simp add: b v)
  show ?thesis
    by (intro conjI) (rule a, rule b, rule c)
qed

subsection \<open>The payload of the commitment digest\<close>

text \<open>
  Claim C2. For a Reveal request that reaches the verification (as in C1), the
  digest compared with the stored commit is the runtime's SHA-256 digest (the
  parameter \<open>sha256\<close>) of the string made, in this order and with a single \<open>|\<close>
  between neighbours, of the bid as \<^verbatim>\<open>toFixed(2)\<close> writes it, the secret, the auction
  id and the seat label. The bid part has the form digits, point, two digits; the
  label is \<open>A\<close> or \<open>B\<close>; and changing one of the four parts, the others fixed,
  changes the payload.
\<close>

theorem commitment_digest_payload:
  assumes tok: "seatToken \<noteq> []" and sec: "secret \<noteq> []" and ok: "validateBid bid"
    and res: "getAuctionBySeatToken db auctionId seatToken = Some (auction, s)"
    and ca: "truthy (commit_a auction)" and cb: "truthy (commit_b auction)"
    and fresh: "bid_of s auction = None"
  shows "(fst (post_reveal sha256 db auctionId (Some seatToken) bid (Some secret)) = OkTrue
            \<longleftrightarrow> commit_of s auction =
                  Some (sha256 (toFixed2 (parseFloat bid) @ ''|'' @ secret @ ''|'' @ auctionId
                                  @ ''|'' @ seat_label s)))
       \<and> commit_payload bid secret auctionId s =
            toFixed2 (parseFloat bid) @ ''|'' @ secret @ ''|'' @ auctionId @ ''|'' @ seat_label s
       \<and> two_decimal_form (toFixed2 (parseFloat bid))
       \<and> (seat_label s = ''A'' \<or> seat_label s = ''B'')
       \<and> (\<forall>bid'. toFixed2 (parseFloat bid') \<noteq> toFixed2 (parseFloat bid) \<longrightarrow>
              commit_payload bid' secret auctionId s \<noteq> commit_payload bid secret auctionId s)
       \<and> (\<forall>secret'. secret' \<noteq> secret \<longrightarrow>
              commit_payload bid secret' auctionId s \<noteq> commit_payload bid secret auctionId s)
       \<and> (\<forall>auctionId'. auctionId' \<noteq> auctionId \<longrightarrow>
              commit_payload bid secret auctionId' s \<noteq> commit_payload bid secret auctionId s)
       \<and> (\<forall>s'. s' \<noteq> s \<longrightarrow>
              commit_payload bid secret auctionId s' \<noteq> commit_payload bid secret auctionId s)"
proof -
  have verified: "fst (post_reveal sha256 db auctionId (Some seatToken) bid (Some secret)) = OkTrue
            \<longleftrightarrow> commit_of s auction =
                  Some (sha256 (toFixed2 (parseFloat bid) @ ''|'' @ secret @ ''|'' @ auctionId
                                  @ ''|'' @ seat_label s))"
    using post_reveal_checked [OF tok sec ok res ca cb fresh, of sha256]
    by (simp add: HashMismatch_def commit_payload_def)
  have form: "two_decimal_form (toFixed2 (parseFloat bid))"
    using ok by (rule validateBid_two_decimals)
  have label: "seat_label s = ''A'' \<or> seat_label s = ''B''"
    by (simp add: seat_label_def)
  have c_bid: "commit_payload bid' secret auctionId s \<noteq> commit_payload bid secret auctionId s"
    if "toFixed2 (parseFloat bid') \<noteq> toFixed2 (parseFloat bid)" for bid'
    using that by (simp add: commit_payload_def)
  have c_secret: "commit_payload bid secret' auctionId s \<noteq> commit_payload bid secret auctionId s"
    if "secret' \<noteq> secret" for secret'
    using that by (simp add: commit_payload_def)
  have c_id: "commit_payload bid secret auctionId' s \<noteq> commit_payload bid secret auctionId s"
    if "auctionId' \<noteq> auctionId" for auctionId'
    using that by (simp add: commit_payload_def)
  have c_seat: "commit_payload bid secret auctionId s' \<noteq> commit_payload bid secret auctionId s"
    if "s' \<noteq> s" for s'
    using that seat_label_inj [of s' s] by (auto simp: commit_payload_def)
  show ?thesis
    using verified form label c_bid c_secret c_id c_seat
    by (simp add: commit_payload_def)
qed

theorem commitment_digest_payload_witness:
  "fst (post_reveal example_sha [committed_auction] ''a1'' (Some ''ta'') (JStr ''150'') (Some ''peanut''))
     = OkTrue
   \<and> commit_payload (JStr ''150'') ''peanut'' ''a1'' SeatA = ''150.00|peanut|a1|A''
   \<and> commit_payload (JStr ''150'') ''walnut'' ''a1'' SeatA
        \<noteq> commit_payload (JStr ''150'') ''peanut'' ''a1'' SeatA"
proof -
  have tok: "''ta'' \<noteq> []" by simp
  have sec: "''peanut'' \<noteq> []" by simp
  have ok: "validateBid (JStr ''150'')" by code_simp
  have fixed: "toFixed2 (parseFloat (JStr ''150'')) = ''150.00''" by code_simp
  have res: "getAuctionBySeatToken [committed_auction] ''a1'' ''ta'' = Some (committed_auction, SeatA)"
    by (simp add: getAuctionBySeatToken_def committed_auction_def example_auction_def)
  have ca: "truthy (commit_a committed_auction)" and cb: "truthy (commit_b committed_auction)"
    by (simp_all add: truthy_def committed_auction_def)
  have fresh: "bid_of SeatA committed_auction = None"
    by (simp add: bid_of_def committed_auction_def example_auction_def)
  have stored: "commit_of SeatA committed_auction = Some (example_sha ''150.00|peanut|a1|A'')"
    by (simp add: commit_of_def committed_auction_def example_sha_def)
  have lab: "seat_label SeatA = ''A''" by (simp add: seat_label_def)
  have differs: "''walnut'' \<noteq> ''peanut''" by simp
  note main = commitment_digest_payload [OF tok sec ok res ca cb fresh, of example_sha]
  have a: "fst (post_reveal example_sha [committed_auction] ''a1'' (Some ''ta'')
      (JStr ''150'') (Some ''peanut'')) = OkTrue"
    using conjunct1 [OF main] stored by (simp add: fixed lab)
  have b: "commit_payload (JStr ''150'') ''peanut'' ''a1'' SeatA = ''150.00|peanut|a1|A''"
    using conjunct1 [OF conjunct2 [OF main]] by (simp add: fixed lab)
  have every: "\<forall>secret'. secret' \<noteq> ''peanut'' \<longrightarrow>
      commit_payload (JStr ''150'') secret' ''a1'' SeatA
        \<noteq> commit_payload (JStr ''150'') ''peanut'' ''a1'' SeatA"
    using conjunct1 [OF conjunct2 [OF conjunct2 [OF conjunct2 [OF conjunct2 [OF conjunct2 [OF main]]]]]] .
  have c: "commit_payload (JStr ''150'') ''walnut'' ''a1'' SeatA
        \<noteq> commit_payload (JStr ''150'') ''peanut'' ''a1'' SeatA"
    using mp [OF spec [OF every] differs] .
  show ?thesis
    by (intro conjI) (rule a, rule b, rule c)
qed

subsection \<open>Resetting a commit\<close>

text \<open>
  Claim C3. For a ResetCommit request whose token resolves to a seat of the auction:
  it succeeds if and only if the other seat has no commit (the source's test: the
  column is \<^verbatim>\<open>NULL\<close> or empty). When the other seat has a commit the request fails
  with \<open>Conflict\<close> and the table is unchanged. When it succeeds, the row of this
  auction becomes the same row with this seat's commit field cleared (the bids and
  secrets, and every other field, as before), and every other auction is as before.
\<close>

theorem reset_commit_iff_other_absent:
  assumes pk: "distinct (map auction_id db)"
    and tok: "seatToken \<noteq> []"
    and res: "getAuctionBySeatToken db auctionId seatToken = Some (auction, s)"
  shows "(fst (post_reset_commit db auctionId (Some seatToken)) = OkTrue
            \<longleftrightarrow> \<not> truthy (commit_of (other_seat s) auction))
       \<and> (truthy (commit_of (other_seat s) auction) \<longrightarrow>
            post_reset_commit db auctionId (Some seatToken) = (Conflict, db))
       \<and> (\<not> truthy (commit_of (other_seat s) auction) \<longrightarrow>
            post_reset_commit db auctionId (Some seatToken) =
              (OkTrue, map (\<lambda>r. if auction_id r = auctionId then with_commit s None r else r) db)
          \<and> getAuctionById (snd (post_reset_commit db auctionId (Some seatToken))) auctionId
              = Some (with_commit s None auction)
          \<and> (\<forall>j. j \<noteq> auctionId \<longrightarrow>
                getAuctionById (snd (post_reset_commit db auctionId (Some seatToken))) j
                  = getAuctionById db j))"
proof -
  let ?f = "with_commit s None"
  let ?db' = "map (\<lambda>r. if auction_id r = auctionId then ?f r else r) db"
  have id_f: "\<And>r. auction_id (?f r) = auction_id r"
    by (simp add: with_commit_def)
  have reset_eq: "resetCommit db auctionId s = ?db'"
    by (simp add: resetCommit_def with_commit_def)
  have byid: "getAuctionById db auctionId = Some auction"
    using getAuctionById_of_token [OF pk res] .
  have other: "commit_of (other_seat s) auction = (if s = SeatA then commit_b auction else commit_a auction)"
    by (simp add: commit_of_def other_seat_def)
  have locked: "truthy (commit_of (other_seat s) auction) \<Longrightarrow>
      post_reset_commit db auctionId (Some seatToken) = (Conflict, db)"
    using tok res other
    by (simp add: post_reset_commit_def truthy_def Conflict_def)
  have free: "\<not> truthy (commit_of (other_seat s) auction) \<Longrightarrow>
      post_reset_commit db auctionId (Some seatToken) = (OkTrue, ?db')"
    using tok res other reset_eq
    by (simp add: post_reset_commit_def truthy_def)
  have look: "getAuctionById ?db' auctionId = Some (?f auction)"
    using find_map_update [of ?f auctionId db, OF id_f] byid
    by (simp add: getAuctionById_def)
  have others: "\<And>j. j \<noteq> auctionId \<Longrightarrow> getAuctionById ?db' j = getAuctionById db j"
    using find_map_other [of ?f _ auctionId db, OF id_f]
    by (simp add: getAuctionById_def)
  have iff: "fst (post_reset_commit db auctionId (Some seatToken)) = OkTrue
            \<longleftrightarrow> \<not> truthy (commit_of (other_seat s) auction)"
  proof (cases "truthy (commit_of (other_seat s) auction)")
    case True
    with locked show ?thesis by (simp add: Conflict_def)
  next
    case False
    with free show ?thesis by simp
  qed
  show ?thesis
    using iff locked free look others by simp
qed

theorem reset_commit_iff_other_absent_witness:
  "post_reset_commit [example_auction\<lparr>commit_a := Some ''c1''\<rparr>] ''a1'' (Some ''ta'')
     = (OkTrue, [example_auction\<lparr>commit_a := None\<rparr>])
   \<and> post_reset_commit [example_auction\<lparr>commit_a := Some ''c1'', commit_b := Some ''c2''\<rparr>] ''a1'' (Some ''ta'')
     = (Conflict, [example_auction\<lparr>commit_a := Some ''c1'', commit_b := Some ''c2''\<rparr>])"
proof -
  let ?r1 = "example_auction\<lparr>commit_a := Some ''c1''\<rparr>"
  let ?r2 = "example_auction\<lparr>commit_a := Some ''c1'', commit_b := Some ''c2''\<rparr>"
  have tok: "''ta'' \<noteq> []" by simp
  have pk1: "distinct (map auction_id [?r1])" by simp
  have pk2: "distinct (map auction_id [?r2])" by simp
  have res1: "getAuctionBySeatToken [?r1] ''a1'' ''ta'' = Some (?r1, SeatA)"
    by (simp add: getAuctionBySeatToken_def example_auction_def)
  have res2: "getAuctionBySeatToken [?r2] ''a1'' ''ta'' = Some (?r2, SeatA)"
    by (simp add: getAuctionBySeatToken_def example_auction_def)
  have n1: "\<not> truthy (commit_of (other_seat SeatA) ?r1)"
    by (simp add: truthy_def commit_of_def other_seat_def example_auction_def)
  have n2: "truthy (commit_of (other_seat SeatA) ?r2)"
    by (simp add: truthy_def commit_of_def other_seat_def)
  from reset_commit_iff_other_absent [OF pk1 tok res1] n1
  have a: "post_reset_commit [?r1] ''a1'' (Some ''ta'') = (OkTrue, [example_auction\<lparr>commit_a := None\<rparr>])"
    by (simp add: with_commit_def example_auction_def)
  from reset_commit_iff_other_absent [OF pk2 tok res2] n2
  have b: "post_reset_commit [?r2] ''a1'' (Some ''ta'') = (Conflict, [?r2])"
    by simp
  from a b show ?thesis by simp
qed

subsection \<open>A revealed seat keeps its commit\<close>

text \<open>
  Claim C4. In a table the server has reached from the empty one, take an auction
  with a bid revealed for a seat. Whatever requests follow, the auction is still
  there and that seat's commit is what it was. In that table both commits exist,
  every ResetCommit with a token of the auction fails with \<open>Conflict\<close>, and every
  Commit with a token of the auction and a well-formed digest fails with
  \<open>AlreadyCommitted\<close>, each leaving the table unchanged.
\<close>

theorem revealed_commit_immutable:
  assumes db: "db = run sha256 [] rs"
    and found: "getAuctionById db auctionId = Some auction"
    and bid: "bid_of s auction \<noteq> None"
  shows "(\<exists>auction'. getAuctionById (run sha256 db rs') auctionId = Some auction'
            \<and> commit_of s auction' = commit_of s auction)
       \<and> truthy (commit_a auction) \<and> truthy (commit_b auction)
       \<and> (\<forall>tok a' s'. tok \<noteq> [] \<and> getAuctionBySeatToken db auctionId tok = Some (a', s') \<longrightarrow>
             post_reset_commit db auctionId (Some tok) = (Conflict, db))
       \<and> (\<forall>tok digest a' s'. tok \<noteq> [] \<and> commit_format digest
               \<and> getAuctionBySeatToken db auctionId tok = Some (a', s') \<longrightarrow>
             post_commit db auctionId (Some tok) (Some digest) = (AlreadyCommitted, db))"
proof -
  have inv: "table_inv db"
    unfolding db by (rule run_inv [OF table_inv_empty])
  then have pk: "distinct (map auction_id db)" by (simp add: table_inv_def)
  from run_frozen [OF inv found bid, of sha256 rs']
  have later: "\<exists>auction'. getAuctionById (run sha256 db rs') auctionId = Some auction'
            \<and> commit_of s auction' = commit_of s auction"
    by blast
  note both = bids_need_commits [OF inv getAuctionById_mem [OF found] bid]
  have reset: "post_reset_commit db auctionId (Some tok) = (Conflict, db)"
    if "tok \<noteq> []" "getAuctionBySeatToken db auctionId tok = Some (a', s')" for tok a' s'
  proof -
    from getAuctionById_of_token [OF pk that(2)] found have "a' = auction" by simp
    with that both show ?thesis
      by (simp add: post_reset_commit_def truthy_def Conflict_def)
  qed
  have commit: "post_commit db auctionId (Some tok) (Some digest) = (AlreadyCommitted, db)"
    if "tok \<noteq> []" "commit_format digest" "getAuctionBySeatToken db auctionId tok = Some (a', s')"
    for tok digest a' s'
  proof -
    from getAuctionById_of_token [OF pk that(3)] found have "a' = auction" by simp
    with that both commit_format_nonempty [OF that(2)] show ?thesis
      by (simp add: post_commit_def truthy_def AlreadyCommitted_def)
  qed
  show ?thesis
    using later both reset commit by blast
qed

theorem revealed_commit_immutable_witness:
  "(\<exists>auction'. getAuctionById (run example_sha (run example_sha [] example_session) example_attempts) ''a1''
        = Some auction'
      \<and> commit_of SeatA auction' = Some (replicate 64 CHR ''a''))
   \<and> post_reset_commit (run example_sha [] example_session) ''a1'' (Some ''tb'')
        = (Conflict, run example_sha [] example_session)"
proof -
  let ?db = "run example_sha [] example_session"
  have found: "getAuctionById ?db ''a1'' = Some half_revealed_auction"
    by (simp add: example_session_run getAuctionById_def half_revealed_auction_def
        committed_auction_def example_auction_def)
  have bid: "bid_of SeatA half_revealed_auction \<noteq> None"
    by (simp add: bid_of_def half_revealed_auction_def)
  have stored: "commit_of SeatA half_revealed_auction = Some (replicate 64 CHR ''a'')"
    by (simp add: commit_of_def half_revealed_auction_def committed_auction_def)
  have tok: "''tb'' \<noteq> []" by simp
  have res: "getAuctionBySeatToken ?db ''a1'' ''tb'' = Some (half_revealed_auction, SeatB)"
    by (simp add: example_session_run getAuctionBySeatToken_def half_revealed_auction_def
        committed_auction_def example_auction_def)
  note main = revealed_commit_immutable [OF refl found bid, of example_attempts]
  have a: "\<exists>auction'. getAuctionById (run example_sha ?db example_attempts) ''a1'' = Some auction'
      \<and> commit_of SeatA auction' = Some (replicate 64 CHR ''a'')"
    using conjunct1 [OF main] by (simp only: stored)
  have every: "\<forall>tok a' s'. tok \<noteq> [] \<and> getAuctionBySeatToken ?db ''a1'' tok = Some (a', s') \<longrightarrow>
             post_reset_commit ?db ''a1'' (Some tok) = (Conflict, ?db)"
    using conjunct1 [OF conjunct2 [OF conjunct2 [OF conjunct2 [OF main]]]] .
  have b: "post_reset_commit ?db ''a1'' (Some ''tb'') = (Conflict, ?db)"
    using mp [OF spec [OF spec [OF spec [OF every]]] conjI [OF tok res]] .
  show ?thesis
    by (intro conjI) (rule a, rule b)
qed

subsection \<open>Commit is one-shot per seat\<close>

text \<open>
  Claim C5. Take a Commit request whose seat the handler resolves. The handler looks
  the seat up only after its input checks, so the request carries a token and a
  digest of 64 lowercase hexadecimal characters. If the seat already has a commit
  the request fails with \<open>AlreadyCommitted\<close> and the table is unchanged, whatever
  the digest; otherwise it succeeds, the row of this auction becomes the same row
  with this seat's commit field set to the digest (every other field, the other
  seat's included, as before), and every other auction is as before.
\<close>

theorem commit_one_shot:
  assumes pk: "distinct (map auction_id db)"
    and tok: "seatToken \<noteq> []"
    and fmt: "commit_format digest"
    and res: "getAuctionBySeatToken db auctionId seatToken = Some (auction, s)"
  shows "(truthy (commit_of s auction) \<longrightarrow>
            post_commit db auctionId (Some seatToken) (Some digest) = (AlreadyCommitted, db))
       \<and> (\<not> truthy (commit_of s auction) \<longrightarrow>
            post_commit db auctionId (Some seatToken) (Some digest) =
              (OkTrue, map (\<lambda>r. if auction_id r = auctionId then with_commit s (Some digest) r else r) db)
          \<and> getAuctionById (snd (post_commit db auctionId (Some seatToken) (Some digest))) auctionId
              = Some (with_commit s (Some digest) auction)
          \<and> (\<forall>j. j \<noteq> auctionId \<longrightarrow>
                getAuctionById (snd (post_commit db auctionId (Some seatToken) (Some digest))) j
                  = getAuctionById db j))"
proof -
  let ?f = "with_commit s (Some digest)"
  let ?db' = "map (\<lambda>r. if auction_id r = auctionId then ?f r else r) db"
  have id_f: "\<And>r. auction_id (?f r) = auction_id r"
    by (simp add: with_commit_def)
  have dig: "digest \<noteq> []" using fmt by (rule commit_format_nonempty)
  have set_eq: "setCommit db auctionId s digest = ?db'"
    by (simp add: setCommit_def with_commit_def)
  have byid: "getAuctionById db auctionId = Some auction"
    using getAuctionById_of_token [OF pk res] .
  have committed: "truthy (commit_of s auction) \<Longrightarrow>
      post_commit db auctionId (Some seatToken) (Some digest) = (AlreadyCommitted, db)"
    using tok dig fmt res
    by (simp add: post_commit_def truthy_def commit_of_def AlreadyCommitted_def)
  have fresh: "\<not> truthy (commit_of s auction) \<Longrightarrow>
      post_commit db auctionId (Some seatToken) (Some digest) = (OkTrue, ?db')"
    using tok dig fmt res set_eq
    by (simp add: post_commit_def truthy_def commit_of_def)
  have look: "getAuctionById ?db' auctionId = Some (?f auction)"
    using find_map_update [of ?f auctionId db, OF id_f] byid
    by (simp add: getAuctionById_def)
  have others: "\<And>j. j \<noteq> auctionId \<Longrightarrow> getAuctionById ?db' j = getAuctionById db j"
    using find_map_other [of ?f _ auctionId db, OF id_f]
    by (simp add: getAuctionById_def)
  show ?thesis
    using committed fresh look others by simp
qed

theorem commit_one_shot_witness:
  "post_commit [example_auction] ''a1'' (Some ''ta'') (Some (replicate 64 CHR ''a''))
     = (OkTrue, [example_auction\<lparr>commit_a := Some (replicate 64 CHR ''a'')\<rparr>])
   \<and> post_commit [example_auction\<lparr>commit_a := Some (replicate 64 CHR ''a'')\<rparr>] ''a1'' (Some ''ta'')
        (Some (replicate 64 CHR ''a''))
     = (AlreadyCommitted, [example_auction\<lparr>commit_a := Some (replicate 64 CHR ''a'')\<rparr>])"
proof -
  let ?d = "replicate 64 CHR ''a''"
  let ?r1 = "example_auction\<lparr>commit_a := Some ?d\<rparr>"
  have fmt: "commit_format ?d"
    by (simp add: commit_format_def hex_lower_def list_all_iff)
  have tok: "''ta'' \<noteq> []" by simp
  have pk0: "distinct (map auction_id [example_auction])" by simp
  have pk1: "distinct (map auction_id [?r1])" by simp
  have res0: "getAuctionBySeatToken [example_auction] ''a1'' ''ta'' = Some (example_auction, SeatA)"
    by (simp add: getAuctionBySeatToken_def example_auction_def)
  have res1: "getAuctionBySeatToken [?r1] ''a1'' ''ta'' = Some (?r1, SeatA)"
    by (simp add: getAuctionBySeatToken_def example_auction_def)
  have n0: "\<not> truthy (commit_of SeatA example_auction)"
    by (simp add: truthy_def commit_of_def example_auction_def)
  have n1: "truthy (commit_of SeatA ?r1)"
    by (simp add: truthy_def commit_of_def)
  from commit_one_shot [OF pk0 tok fmt res0] n0
  have a: "post_commit [example_auction] ''a1'' (Some ''ta'') (Some ?d) = (OkTrue, [?r1])"
    by (simp add: with_commit_def example_auction_def)
  from commit_one_shot [OF pk1 tok fmt res1] n1
  have b: "post_commit [?r1] ''a1'' (Some ''ta'') (Some ?d) = (AlreadyCommitted, [?r1])"
    by simp
  from a b show ?thesis by simp
qed

subsection \<open>The bid validator on text that is not a number\<close>

text \<open>
  Claim C6 says that \<open>validateBid\<close> accepts exactly the numbers \<open>0 < v \<le> 100000\<close>
  written with at most two fractional digits, and rejects what is not a number.
  \<^verbatim>\<open>parseFloat\<close> reads a numeric prefix and ignores the rest, and the test on decimals
  looks only at the text between the first and the second point, so the validator
  accepts \<^verbatim>\<open>"12abc"\<close> (hashed and stored as \<^verbatim>\<open>12.00\<close>) and \<^verbatim>\<open>"12.5.7"\<close>,
  and values with more than two decimals that are written with an exponent: the
  string \<^verbatim>\<open>"5e-3"\<close> and the number \<^verbatim>\<open>1e-7\<close>.
\<close>

theorem validateBid_accepts_trailing_text:
  "validateBid (JStr ''12abc'')
   \<and> parseFloat (JStr ''12abc'') = Fin 12
   \<and> split_dot ''12abc'' = [''12abc'']
   \<and> toFixed2 (parseFloat (JStr ''12abc'')) = ''12.00''
   \<and> validateBid (JStr ''12.5.7'')
   \<and> validateBid (JStr ''5e-3'')
   \<and> toFixed2 (parseFloat (JStr ''5e-3'')) = ''0.01''
   \<and> js_String (JNum (to_double (1 / 10 ^ 7))) = ''1e-7''
   \<and> validateBid (JNum (to_double (1 / 10 ^ 7)))"
  by code_simp

subsection \<open>The result of an auction\<close>

text \<open>
  Claim C7. GetResult answers \<open>Auction not found\<close> exactly when no auction has the id.
  For an auction that exists it answers \<^verbatim>\<open>{ revealed: false }\<close> when a bid is missing;
  when both bids are there it echoes both as \<^verbatim>\<open>toFixed(2)\<close> writes them, the winner is
  \<open>A\<close> when bid A is greater, \<open>B\<close> when bid B is greater, with the winning bid as
  payment amount, and \<open>TIE\<close> without a payment amount otherwise, in particular
  when the bids are equal.
\<close>

theorem result_contract:
  "(get_result db auctionId = AuctionNotFound \<longleftrightarrow> getAuctionById db auctionId = None)
   \<and> (\<forall>auction. getAuctionById db auctionId = Some auction \<longrightarrow>
        (bid_a auction = None \<or> bid_b auction = None \<longrightarrow> get_result db auctionId = NotRevealed)
      \<and> (\<forall>a b. bid_a auction = Some a \<and> bid_b auction = Some b \<longrightarrow>
            (\<exists>res. get_result db auctionId = Result res
               \<and> bidA res = toFixed2 a \<and> bidB res = toFixed2 b
               \<and> (js_gt a b \<longrightarrow> winner res = ''A'' \<and> paymentAmount res = Some (toFixed2 a))
               \<and> (js_gt b a \<longrightarrow> winner res = ''B'' \<and> paymentAmount res = Some (toFixed2 b))
               \<and> (\<not> js_gt a b \<and> \<not> js_gt b a \<longrightarrow>
                     winner res = ''TIE'' \<and> paymentAmount res = None)
               \<and> (a = b \<longrightarrow> winner res = ''TIE'' \<and> paymentAmount res = None))))"
proof (intro conjI allI impI)
  show "get_result db auctionId = AuctionNotFound \<longleftrightarrow> getAuctionById db auctionId = None"
  proof (cases "getAuctionById db auctionId")
    case None
    then show ?thesis by (simp add: get_result_def AuctionNotFound_def)
  next
    case (Some auction)
    show ?thesis
    proof (cases "bid_a auction = None \<or> bid_b auction = None")
      case True
      with Some show ?thesis by (auto simp: get_result_def AuctionNotFound_def)
    next
      case False
      then obtain a b where "bid_a auction = Some a" "bid_b auction = Some b" by auto
      from get_result_revealed [OF Some this] Some show ?thesis
        by (simp add: AuctionNotFound_def)
    qed
  qed
next
  fix auction
  assume "getAuctionById db auctionId = Some auction" "bid_a auction = None \<or> bid_b auction = None"
  then show "get_result db auctionId = NotRevealed"
    by (auto simp: get_result_def)
next
  fix auction a b
  assume found: "getAuctionById db auctionId = Some auction"
    and bids: "bid_a auction = Some a \<and> bid_b auction = Some b"
  note r = get_result_revealed [OF found conjunct1 [OF bids] conjunct2 [OF bids]]
  have irrefl: "\<not> js_gt a a" by (simp add: js_gt_def js_lt_irrefl)
  show "\<exists>res. get_result db auctionId = Result res
               \<and> bidA res = toFixed2 a \<and> bidB res = toFixed2 b
               \<and> (js_gt a b \<longrightarrow> winner res = ''A'' \<and> paymentAmount res = Some (toFixed2 a))
               \<and> (js_gt b a \<longrightarrow> winner res = ''B'' \<and> paymentAmount res = Some (toFixed2 b))
               \<and> (\<not> js_gt a b \<and> \<not> js_gt b a \<longrightarrow>
                     winner res = ''TIE'' \<and> paymentAmount res = None)
               \<and> (a = b \<longrightarrow> winner res = ''TIE'' \<and> paymentAmount res = None)"
    unfolding r using js_gt_asym [of b a] irrefl by auto
qed

theorem result_contract_witness:
  "get_result [] ''a1'' = AuctionNotFound
   \<and> get_result [committed_auction] ''a1'' = NotRevealed
   \<and> (\<exists>res. get_result [revealed_auction] ''a1'' = Result res
         \<and> winner res = ''B'' \<and> paymentAmount res = Some ''200.00''
         \<and> bidA res = ''150.00'' \<and> bidB res = ''200.00'')"
proof -
  have none: "getAuctionById [] ''a1'' = None"
    by (simp add: getAuctionById_def)
  have f1: "getAuctionById [committed_auction] ''a1'' = Some committed_auction"
    by (simp add: getAuctionById_def committed_auction_def example_auction_def)
  have f2: "getAuctionById [revealed_auction] ''a1'' = Some revealed_auction"
    by (simp add: getAuctionById_def revealed_auction_def committed_auction_def example_auction_def)
  have nobid: "bid_a committed_auction = None \<or> bid_b committed_auction = None"
    by (simp add: committed_auction_def example_auction_def)
  have bids: "bid_a revealed_auction = Some (Fin 150) \<and> bid_b revealed_auction = Some (Fin 200)"
    by (simp add: revealed_auction_def)
  have gt: "js_gt (Fin 200) (Fin 150)" by (simp add: js_gt_def)
  have s150: "toFixed2 (Fin 150) = ''150.00''" by code_simp
  have s200: "toFixed2 (Fin 200) = ''200.00''" by code_simp
  have a: "get_result [] ''a1'' = AuctionNotFound"
    using conjunct1 [OF result_contract [of "[]" "''a1''"]] none by simp
  note at1 = mp [OF spec [OF conjunct2 [OF result_contract [of "[committed_auction]" "''a1''"]]] f1]
  have b: "get_result [committed_auction] ''a1'' = NotRevealed"
    using mp [OF conjunct1 [OF at1] nobid] .
  note at2 = mp [OF spec [OF conjunct2 [OF result_contract [of "[revealed_auction]" "''a1''"]]] f2]
  from mp [OF spec [OF spec [OF conjunct2 [OF at2]]] bids]
  obtain res where res: "get_result [revealed_auction] ''a1'' = Result res"
      "bidA res = toFixed2 (Fin 150)" "bidB res = toFixed2 (Fin 200)"
      "js_gt (Fin 200) (Fin 150) \<longrightarrow> winner res = ''B'' \<and> paymentAmount res = Some (toFixed2 (Fin 200))"
    by (elim exE conjE)
  from res(4) gt have w: "winner res = ''B''" "paymentAmount res = Some (toFixed2 (Fin 200))"
    by simp_all
  have c: "\<exists>res. get_result [revealed_auction] ''a1'' = Result res
         \<and> winner res = ''B'' \<and> paymentAmount res = Some ''200.00''
         \<and> bidA res = ''150.00'' \<and> bidB res = ''200.00''"
    using res(1-3) w by (simp add: s150 s200)
  show ?thesis
    by (intro conjI) (rule a, rule b, rule c)
qed

subsection \<open>The status of an auction\<close>

text \<open>
  Claim C8. For an auction that exists, GetStatus answers with a status whose phase
  is computed from the stored fields: \<open>revealed\<close> when both bids are there, else
  \<open>reveal\<close> when both commits are there, else \<open>commit\<close>. A seat token that is
  neither seat's token gives no seat identification and the very response that no
  token gives.
\<close>

theorem status_phase_derived:
  assumes "getAuctionById db auctionId = Some auction"
  shows "\<exists>resp. get_status db auctionId seatToken = Status resp
      \<and> phase resp = (if bid_a auction \<noteq> None \<and> bid_b auction \<noteq> None then ''revealed''
                       else if truthy (commit_a auction) \<and> truthy (commit_b auction) then ''reveal''
                       else ''commit'')
      \<and> (seatToken \<noteq> Some (seat_a_token auction) \<and> seatToken \<noteq> Some (seat_b_token auction) \<longrightarrow>
            mySeat resp = None \<and> get_status db auctionId seatToken = get_status db auctionId None)"
  using assms by (simp add: get_status_def Let_def truthy_def)

theorem status_phase_derived_witness:
  "get_status [committed_auction] ''a1'' (Some ''bogus'') = get_status [committed_auction] ''a1'' None
   \<and> (\<exists>resp. get_status [committed_auction] ''a1'' (Some ''bogus'') = Status resp
         \<and> phase resp = ''reveal'' \<and> mySeat resp = None)"
proof -
  have found: "getAuctionById [committed_auction] ''a1'' = Some committed_auction"
    by (simp add: getAuctionById_def committed_auction_def example_auction_def)
  have neither: "Some ''bogus'' \<noteq> Some (seat_a_token committed_auction)
      \<and> Some ''bogus'' \<noteq> Some (seat_b_token committed_auction)"
    by (simp add: committed_auction_def example_auction_def)
  have ph: "(if bid_a committed_auction \<noteq> None \<and> bid_b committed_auction \<noteq> None then ''revealed''
             else if truthy (commit_a committed_auction) \<and> truthy (commit_b committed_auction)
                  then ''reveal'' else ''commit'') = ''reveal''"
    by (simp add: committed_auction_def example_auction_def truthy_def)
  from status_phase_derived [OF found, of "Some ''bogus''"] neither ph
  show ?thesis by auto
qed

subsection \<open>Commit checks the digest format before it resolves the seat\<close>

text \<open>
  Claim C9 says that Commit resolves the seat first, so that an unresolved request
  fails with \<open>NotFound\<close> even when its digest is malformed. The handler tests the
  format first: on the empty table, where nothing resolves, a malformed digest is
  answered by \<open>Invalid commit format\<close>, not by \<open>NotFound\<close>.
\<close>

theorem commit_not_found_before_format_counterexample:
  "getAuctionBySeatToken [] ''a1'' ''ta'' = None
   \<and> \<not> commit_format ''xyz''
   \<and> post_commit [] ''a1'' (Some ''ta'') (Some ''xyz'') = (InvalidCommitFormat, [])
   \<and> fst (post_commit [] ''a1'' (Some ''ta'') (Some ''xyz'')) \<noteq> NotFound"
  by (simp add: getAuctionBySeatToken_def commit_format_def post_commit_def truthy_def
      InvalidCommitFormat_def NotFound_def)

text \<open>
  Claim C9, amended. A Commit request that carries a token and a malformed digest
  fails with the validation error \<open>Invalid commit format\<close>, whether or not its
  auction id and token resolve, and leaves the table unchanged; and a Commit request
  with a token and a digest fails with \<open>NotFound\<close> exactly when the digest is well
  formed and the auction id and token do not resolve.
\<close>

theorem commit_format_before_resolution:
  "(seatToken \<noteq> [] \<and> digest \<noteq> [] \<and> \<not> commit_format digest \<longrightarrow>
      post_commit db auctionId (Some seatToken) (Some digest) = (InvalidCommitFormat, db)
      \<and> ValidationError InvalidCommitFormat)
   \<and> (fst (post_commit db auctionId token commit) = NotFound
        \<longleftrightarrow> (\<exists>t c. token = Some t \<and> commit = Some c \<and> t \<noteq> [] \<and> commit_format c
                   \<and> getAuctionBySeatToken db auctionId t = None))"
proof -
  have bad: "seatToken \<noteq> [] \<and> digest \<noteq> [] \<and> \<not> commit_format digest \<longrightarrow>
      post_commit db auctionId (Some seatToken) (Some digest) = (InvalidCommitFormat, db)"
    by (simp add: post_commit_def truthy_def InvalidCommitFormat_def)
  have val: "ValidationError InvalidCommitFormat"
    by (simp add: ValidationError_def InvalidCommitFormat_def)
  have nf: "fst (post_commit db auctionId token commit) = NotFound
        \<longleftrightarrow> (\<exists>t c. token = Some t \<and> commit = Some c \<and> t \<noteq> [] \<and> commit_format c
                   \<and> getAuctionBySeatToken db auctionId t = None)"
  proof (cases "truthy token \<and> truthy commit")
    case False
    then show ?thesis
      by (auto simp: post_commit_def truthy_def NotFound_def split: option.splits
          dest: commit_format_nonempty)
  next
    case True
    then obtain t c where tc: "token = Some t" "commit = Some c" "t \<noteq> []" "c \<noteq> []"
      by (auto simp: truthy_def split: option.splits)
    show ?thesis
      unfolding tc
      by (auto simp: post_commit_def truthy_def NotFound_def Let_def tc(3,4)
          split: option.splits prod.splits)
  qed
  from bad val nf show ?thesis by blast
qed

theorem commit_format_before_resolution_witness:
  "post_commit [example_auction] ''a1'' (Some ''ta'') (Some ''xyz'') = (InvalidCommitFormat, [example_auction])
   \<and> fst (post_commit [example_auction] ''zz'' (Some ''ta'') (Some (replicate 64 CHR ''a''))) = NotFound"
proof -
  have fmt: "commit_format (replicate 64 CHR ''a'')"
    by (simp add: commit_format_def hex_lower_def list_all_iff)
  have bad: "''ta'' \<noteq> [] \<and> ''xyz'' \<noteq> [] \<and> \<not> commit_format ''xyz''"
    by (simp add: commit_format_def)
  have unres: "\<exists>t c. Some ''ta'' = Some t \<and> Some (replicate 64 CHR ''a'') = Some c \<and> t \<noteq> []
      \<and> commit_format c \<and> getAuctionBySeatToken [example_auction] ''zz'' t = None"
    using fmt by (simp add: getAuctionBySeatToken_def example_auction_def)
  note main = commit_format_before_resolution [of "''ta''" "''xyz''" "[example_auction]" "''a1''"
      "Some ''ta''" "Some ''xyz''"]
  have a: "post_commit [example_auction] ''a1'' (Some ''ta'') (Some ''xyz'') = (InvalidCommitFormat, [example_auction])"
    using mp [OF conjunct1 [OF main] bad] by (rule conjunct1)
  note other = commit_format_before_resolution [of "''ta''" "''xyz''" "[example_auction]" "''zz''"
      "Some ''ta''" "Some (replicate 64 CHR ''a'')"]
  have b: "fst (post_commit [example_auction] ''zz'' (Some ''ta'') (Some (replicate 64 CHR ''a''))) = NotFound"
    using iffD2 [OF conjunct2 [OF other] unres] .
  show ?thesis
    by (intro conjI) (rule a, rule b)
qed

subsection \<open>The stored bid is the canonical bid\<close>

text \<open>
  Claim C10. Take a Reveal that succeeds for a seat, on a table the server has
  reached. The commit of the seat is the digest of the payload that starts with the
  two-decimal string of the bid; the bid stored for the seat is \<^verbatim>\<open>parseFloat\<close> of
  that string; writing the stored bid with \<^verbatim>\<open>toFixed(2)\<close> gives the string back; and
  whenever GetResult answers with a result afterwards, after any further requests,
  the bid string it returns for the seat is that string.
\<close>

theorem reveal_stores_canonical_bid:
  assumes reach: "db = run sha256 [] rs"
    and res: "getAuctionBySeatToken db auctionId seatToken = Some (auction, s)"
    and success: "post_reveal sha256 db auctionId (Some seatToken) bid (Some secret) = (OkTrue, db')"
  shows "commit_of s auction =
           Some (sha256 (toFixed2 (parseFloat bid) @ ''|'' @ secret @ ''|'' @ auctionId @ ''|''
                           @ seat_label s))
       \<and> (\<exists>auction'. getAuctionById db' auctionId = Some auction'
             \<and> bid_of s auction' = Some (parseFloat (JStr (toFixed2 (parseFloat bid)))))
       \<and> toFixed2 (parseFloat (JStr (toFixed2 (parseFloat bid)))) = toFixed2 (parseFloat bid)
       \<and> (\<forall>rs' res. get_result (run sha256 db' rs') auctionId = Result res \<longrightarrow>
             (if s = SeatA then bidA res else bidB res) = toFixed2 (parseFloat bid))"
proof -
  let ?str = "toFixed2 (parseFloat bid)"
  let ?v = "parseFloat (JStr ?str)"
  note ok = post_reveal_ok [OF success res]
  have inv: "table_inv db"
    unfolding reach by (rule run_inv [OF table_inv_empty])
  then have pk: "distinct (map auction_id db)" by (simp add: table_inv_def)
  have bound: "commit_of s auction =
           Some (sha256 (?str @ ''|'' @ secret @ ''|'' @ auctionId @ ''|'' @ seat_label s))"
    using ok(5) by (simp add: commit_payload_def)
  have byid: "getAuctionById db auctionId = Some auction"
    using getAuctionById_of_token [OF pk res] .
  have found': "getAuctionById db' auctionId = Some (with_reveal s ?v secret auction)"
    unfolding ok(6) using byid by (simp add: getAuctionById_update_rows)
  have stored: "bid_of s (with_reveal s ?v secret auction) = Some ?v"
    by (simp add: bid_of_def with_reveal_def)
  have trip: "toFixed2 ?v = ?str"
    using ok(1) by (rule validateBid_round_trip)
  have "table_step db (snd (post_reveal sha256 db auctionId (Some seatToken) bid (Some secret)))"
    by (rule post_reveal_step)
  with success have "table_step db db'" by simp
  from table_step_inv [OF this inv] have inv': "table_inv db'" .
  have later: "(if s = SeatA then bidA res else bidB res) = ?str"
    if "get_result (run sha256 db' rs') auctionId = Result res" for rs' res
  proof -
    from stored have "bid_of s (with_reveal s ?v secret auction) \<noteq> None" by simp
    from run_frozen [OF inv' found' this, of sha256 rs'] stored
    obtain r where r: "getAuctionById (run sha256 db' rs') auctionId = Some r" "bid_of s r = Some ?v"
      by auto
    from get_result_bids(3,4) [OF that r(1)] r(2) trip show ?thesis
      by (auto simp: bid_of_def split: if_splits)
  qed
  show ?thesis
    using bound found' stored trip later by blast
qed

theorem reveal_stores_canonical_bid_witness:
  "(\<exists>auction'. getAuctionById [half_revealed_auction] ''a1'' = Some auction'
       \<and> bid_a auction' = Some (parseFloat (JStr ''150.00'')))
   \<and> toFixed2 (parseFloat (JStr ''150.00'')) = ''150.00''
   \<and> (\<exists>res. get_result (run example_sha [half_revealed_auction] example_last_reveal) ''a1'' = Result res
         \<and> bidA res = toFixed2 (parseFloat (JStr ''150.00'')))"
proof -
  have reach: "[committed_auction] = run example_sha [] (take 3 example_session)"
    by (simp only: example_commits_run)
  have res: "getAuctionBySeatToken [committed_auction] ''a1'' ''ta'' = Some (committed_auction, SeatA)"
    by (simp add: getAuctionBySeatToken_def committed_auction_def example_auction_def)
  note main = reveal_stores_canonical_bid [OF reach res example_reveal_a]
  have str: "toFixed2 (parseFloat (JStr ''150.00'')) = ''150.00''" by (rule toFixed2_150)
  have a: "\<exists>auction'. getAuctionById [half_revealed_auction] ''a1'' = Some auction'
       \<and> bid_a auction' = Some (parseFloat (JStr ''150.00''))"
    using conjunct1 [OF conjunct2 [OF main]] by (simp add: bid_of_def str)
  have every: "\<forall>rs' res. get_result (run example_sha [half_revealed_auction] rs') ''a1'' = Result res \<longrightarrow>
      (if SeatA = SeatA then bidA res else bidB res) = toFixed2 (parseFloat (JStr ''150.00''))"
    using conjunct2 [OF conjunct2 [OF conjunct2 [OF main]]] .
  from mp [OF spec [OF spec [OF every]] example_result]
  have c: "\<exists>res. get_result (run example_sha [half_revealed_auction] example_last_reveal) ''a1'' = Result res
         \<and> bidA res = toFixed2 (parseFloat (JStr ''150.00''))"
    using example_result by simp
  show ?thesis
    by (intro conjI) (rule a, rule str, rule c)
qed

end
